theory Spec2Isabelle
  imports Main "HOL-Library.Word"
begin

text \<open>
  Three parts of the node are modelled, each from its Go source: the validation of GRANDPA
  vote messages, the epoch state of BABE, and the database side of the state trie. State
  is passed explicitly, errors are values, and a panic is an outcome of its own.
\<close>

section \<open>GRANDPA vote validator (package grandpa)\<close>

subsection \<open>Data model\<close>

text \<open>
  Hashes and ed25519 public keys are 32-byte arrays, signatures 64-byte arrays; rounds and
  set ids are \<open>uint64\<close>, block numbers \<open>uint32\<close>. A peer id is a string.
\<close>

type_synonym Hash = "256 word"
type_synonym PublicKeyBytes = "256 word"
type_synonym SignatureBytes = "512 word"
type_synonym peerID = string

text \<open>The three stages of a vote (the spec's data model: PrimaryProposal, Prevote, Precommit).\<close>

datatype Subround = primaryProposal | prevote | precommit

text \<open>
  Errors are values, of one type for the three packages, as Go's \<open>error\<close> is.
  \<open>errors_New\<close> is an error made on the spot with \<open>errors.New\<close>; \<open>Errorf\<close> is an
  error built with \<open>fmt.Errorf\<close> around another one (the verb \<open>%w\<close>): its format string,
  the numbers and byte strings among its other arguments, and the wrapped error.
  \<open>External\<close> is any other error of a collaborator (database, network, codec).
\<close>

type_synonym bytes = "8 word list"

datatype fmtarg = ArgNat nat | ArgBytes bytes

datatype error =
    ErrSetIDMismatch
  | errRoundMismatch "64 word" "64 word"
  | errVoteFromSelf
  | ErrBlockDoesNotExist
  | ErrDescendantNotFound
  | ErrEndNodeNotFound
  | ErrStartNodeNotFound
  | errVoteBlockMismatch
  | ErrEquivocation
  | ErrInvalidSignature
  | ErrVoterNotFound
  | ErrEpochNotInMemory
  | errHashNotInMemory
  | errHashNotPersisted
  | ErrKeyNotFound
  | ErrEmptyProof
  | ErrDecodeNode
  | errors_New string
  | Errorf string "fmtarg list" error
  | External string

text \<open>\<open>errors.Is\<close>: the target is the error itself or is found by unwrapping it.\<close>

fun errors_Is :: "error \<Rightarrow> error \<Rightarrow> bool" where
  "errors_Is (Errorf f as e) t = (Errorf f as e = t \<or> errors_Is e t)"
| "errors_Is e t = (e = t)"

text \<open>
  What a call does: it returns, or it panics (a nil dereference, a division by zero), or
  the model's recursion bound was too small for it.
\<close>

datatype 'a outcome = Returns 'a | Panics | OutOfFuel

record Vote =
  v_Hash :: Hash
  v_Number :: "32 word"

record SignedVote =
  sv_Vote :: Vote
  sv_Signature :: SignatureBytes
  sv_AuthorityID :: PublicKeyBytes

record SignedMessage =
  sm_Stage :: Subround
  sm_BlockHash :: Hash
  sm_Number :: "32 word"
  sm_Signature :: SignatureBytes
  sm_AuthorityID :: PublicKeyBytes

record VoteMessage =
  vm_Round :: "64 word"
  vm_SetID :: "64 word"
  vm_Message :: SignedMessage

record FullVote =
  fv_Stage :: Subround
  fv_Vote :: Vote
  fv_Round :: "64 word"
  fv_SetID :: "64 word"

record Voter =
  Key :: PublicKeyBytes
  ID :: "64 word"

definition NewVote :: "Hash \<Rightarrow> 32 word \<Rightarrow> Vote" where
  "NewVote h n = \<lparr>v_Hash = h, v_Number = n\<rparr>"

text \<open>
  The collaborators of the validator, whose code is outside the validator's file: the
  ed25519 package (\<open>NewPublicKey\<close>, \<open>Verify\<close> on the encoded \<open>FullVote\<close>), the block state
  (\<open>HasHeader\<close>, \<open>IsDescendantOf\<close>, \<open>GetFinalisedHeader\<close>), the construction of the commit
  message and its conversion, and the network's \<open>SendMessage\<close>. Each returns its error as a
  value. A public key is represented by its bytes, so \<open>AsBytes\<close> is the identity.
  \<open>'h\<close> is the header type, \<open>'c\<close> the commit message, \<open>'m\<close> the consensus message.
\<close>

record ('h, 'c, 'm) Env =
  NewPublicKey :: "PublicKeyBytes \<Rightarrow> error + PublicKeyBytes"
  Verify :: "PublicKeyBytes \<Rightarrow> FullVote \<Rightarrow> SignatureBytes \<Rightarrow> error + bool"
  HasHeader :: "Hash \<Rightarrow> error + bool"
  IsDescendantOf :: "Hash \<Rightarrow> Hash \<Rightarrow> error + bool"
  GetFinalisedHeader :: "64 word \<Rightarrow> 64 word \<Rightarrow> error + 'h"
  newCommitMessage :: "'h \<Rightarrow> 64 word \<Rightarrow> error + 'c"
  ToConsensusMessage :: "'c \<Rightarrow> error + 'm"
  SendMessage :: "peerID \<Rightarrow> 'm \<Rightarrow> error option"

text \<open>
  The service state the validator reads and writes. \<open>network\<close> is the log of the calls of
  \<open>SendMessage\<close> (peer and message), in order, \<open>warnings\<close> the warnings the validator
  logs, and \<open>tracker\<close> the holding area of deferred votes.
\<close>

record 'm Service =
  round :: "64 word"
  setID :: "64 word"
  voters :: "Voter list"
  head :: Hash
  publicKeyBytes :: PublicKeyBytes
  prevotes :: "PublicKeyBytes \<rightharpoonup> SignedVote"
  precommits :: "PublicKeyBytes \<rightharpoonup> SignedVote"
  pvEquivocations :: "PublicKeyBytes \<rightharpoonup> SignedVote list"
  pcEquivocations :: "PublicKeyBytes \<rightharpoonup> SignedVote list"
  tracker :: "(peerID \<times> VoteMessage) list"
  network :: "(peerID \<times> 'm) list"
  warnings :: "string list"

subsection \<open>Helpers whose code is outside the validator's file\<close>

text \<open>
  Modelled from the spec: \<open>pubkeyToVoter\<close> is missing from the sources. The spec: "resolve
  \<open>authority_id\<close> to a voter in the set; if not found, fail". The voter returned carries the
  key and its position in the voter set.
\<close>

fun find_voter :: "Voter list \<Rightarrow> PublicKeyBytes \<Rightarrow> nat \<Rightarrow> nat option" where
  "find_voter [] pk i = None"
| "find_voter (v # vs) pk i = (if Key v = pk then Some i else find_voter vs pk (Suc i))"

definition pubkeyToVoter :: "'m Service \<Rightarrow> PublicKeyBytes \<Rightarrow> error + Voter" where
  "pubkeyToVoter s pk =
     (case find_voter (voters s) pk 0 of
        None \<Rightarrow> Inl ErrVoterNotFound
      | Some i \<Rightarrow> Inr \<lparr>Key = pk, ID = of_nat i\<rparr>)"

text \<open>
  Modelled from the spec: \<open>loadVote\<close> and \<open>deleteVote\<close> are missing from the sources. The
  spec: \<open>prevotes\<close> holds the votes of the stages Prevote and PrimaryProposal,
  \<open>precommits\<close> those of Precommit; a vote is looked up in, and deleted from, "the stage map".
\<close>

definition loadVote :: "'m Service \<Rightarrow> PublicKeyBytes \<Rightarrow> Subround \<Rightarrow> SignedVote option" where
  "loadVote s k stage =
     (case stage of precommit \<Rightarrow> precommits s k | _ \<Rightarrow> prevotes s k)"

definition deleteVote :: "'m Service \<Rightarrow> PublicKeyBytes \<Rightarrow> Subround \<Rightarrow> 'm Service" where
  "deleteVote s k stage =
     (case stage of
        precommit \<Rightarrow> s\<lparr>precommits := (precommits s)(k := None)\<rparr>
      | _ \<Rightarrow> s\<lparr>prevotes := (prevotes s)(k := None)\<rparr>)"

text \<open>
  Modelled from the spec: the tracker's \<open>addVote\<close> is missing from the sources. The spec:
  the tracker is "a holding area of (peer, VoteMessage) pairs"; a deferred message is added
  to it with its peer.
\<close>

definition addVote :: "'m Service \<Rightarrow> peerID \<Rightarrow> VoteMessage \<Rightarrow> 'm Service" where
  "addVote s from m = s\<lparr>tracker := tracker s @ [(from, m)]\<rparr>"

subsection \<open>The validator\<close>

text \<open>The stage's equivocation map, as the \<open>switch\<close> of \<open>checkForEquivocation\<close> selects it.\<close>

definition eqMap :: "'m Service \<Rightarrow> Subround \<Rightarrow> (PublicKeyBytes \<rightharpoonup> SignedVote list)" where
  "eqMap s stage = (case stage of precommit \<Rightarrow> pcEquivocations s | _ \<Rightarrow> pvEquivocations s)"

definition setEq :: "'m Service \<Rightarrow> Subround \<Rightarrow> PublicKeyBytes \<Rightarrow> SignedVote list \<Rightarrow> 'm Service" where
  "setEq s stage k vs =
     (case stage of
        precommit \<Rightarrow> s\<lparr>pcEquivocations := (pcEquivocations s)(k \<mapsto> vs)\<rparr>
      | _ \<Rightarrow> s\<lparr>pvEquivocations := (pvEquivocations s)(k \<mapsto> vs)\<rparr>)"

definition checkForEquivocation ::
  "'m Service \<Rightarrow> Voter \<Rightarrow> SignedVote \<Rightarrow> Subround \<Rightarrow> bool \<times> 'm Service" where
  "checkForEquivocation s voter vote stage =
     (let v = Key voter in
      case eqMap s stage v of
        Some old \<Rightarrow> (True, setEq s stage v (old @ [vote]))
      | None \<Rightarrow>
         (case loadVote s v stage of
            None \<Rightarrow> (False, s)
          | Some existingVote \<Rightarrow>
              if v_Hash (sv_Vote existingVote) \<noteq> v_Hash (sv_Vote vote)
              then (True, deleteVote (setEq s stage v [existingVote, vote]) v stage)
              else (False, s)))"

definition validateVote :: "('h, 'c, 'm) Env \<Rightarrow> 'm Service \<Rightarrow> Vote \<Rightarrow> error option" where
  "validateVote env s v =
     (case HasHeader env (v_Hash v) of
        Inl e \<Rightarrow> Some e
      | Inr has \<Rightarrow>
          if \<not> has then Some ErrBlockDoesNotExist
          else (case IsDescendantOf env (head s) (v_Hash v) of
                  Inl e \<Rightarrow> Some e
                | Inr isDescendant \<Rightarrow>
                    if \<not> isDescendant then Some errVoteBlockMismatch else None))"

definition validateMessageSignature ::
  "('h, 'c, 'm) Env \<Rightarrow> PublicKeyBytes \<Rightarrow> VoteMessage \<Rightarrow> error option" where
  "validateMessageSignature env pk m =
     (case Verify env pk
             \<lparr>fv_Stage = sm_Stage (vm_Message m),
              fv_Vote = NewVote (sm_BlockHash (vm_Message m)) (sm_Number (vm_Message m)),
              fv_Round = vm_Round m,
              fv_SetID = vm_SetID m\<rparr>
             (sm_Signature (vm_Message m)) of
        Inl e \<Rightarrow> Some e
      | Inr ok \<Rightarrow> if \<not> ok then Some ErrInvalidSignature else None)"

text \<open>The lower bound of the accepted rounds: \<open>round - 1\<close>, or 0 when that wrapped around.\<close>

definition minRoundAccepted :: "64 word \<Rightarrow> 64 word" where
  "minRoundAccepted r = (if r - 1 > r then 0 else r - 1)"

definition maxRoundAccepted :: "64 word \<Rightarrow> 64 word" where
  "maxRoundAccepted r = r + 1"

text \<open>The reply to a peer whose round lags by one (the branch \<open>m.Round < s.state.round\<close>).\<close>

definition replyLagging ::
  "('h, 'c, 'm) Env \<Rightarrow> 'm Service \<Rightarrow> peerID \<Rightarrow> VoteMessage
     \<Rightarrow> (Vote option \<times> error option) \<times> 'm Service" where
  "replyLagging env s from m =
     (case GetFinalisedHeader env (vm_Round m) (vm_SetID m) of
        Inl e \<Rightarrow> ((None, Some e), s)
      | Inr header \<Rightarrow>
         (case newCommitMessage env header (vm_Round m) of
            Inl e \<Rightarrow> ((None, Some e), s)
          | Inr cm \<Rightarrow>
             (case ToConsensusMessage env cm of
                Inl e \<Rightarrow> ((None, Some e), s)
              | Inr msg \<Rightarrow>
                  (let s1 = s\<lparr>network := network s @ [(from, msg)]\<rparr>;
                       s2 = (case SendMessage env from msg of
                               Some e \<Rightarrow>
                                 s1\<lparr>warnings := warnings s1 @ [''failed to send CommitMessage'']\<rparr>
                             | None \<Rightarrow> s1)
                   in ((None, Some (errRoundMismatch (vm_Round m) (round s))), s2)))))"

text \<open>Storing the accepted vote in the stage's map (the final \<open>switch\<close>).\<close>

definition storeVote :: "'m Service \<Rightarrow> Subround \<Rightarrow> PublicKeyBytes \<Rightarrow> SignedVote \<Rightarrow> 'm Service" where
  "storeVote s stage k just =
     (case stage of
        precommit \<Rightarrow> s\<lparr>precommits := (precommits s)(k \<mapsto> just)\<rparr>
      | _ \<Rightarrow> s\<lparr>prevotes := (prevotes s)(k \<mapsto> just)\<rparr>)"

text \<open>The part of \<open>validateVoteMessage\<close> for a message of the current round.\<close>

definition validateCurrentRound ::
  "('h, 'c, 'm) Env \<Rightarrow> 'm Service \<Rightarrow> peerID \<Rightarrow> VoteMessage \<Rightarrow> PublicKeyBytes
     \<Rightarrow> (Vote option \<times> error option) \<times> 'm Service" where
  "validateCurrentRound env s from m pk =
     (case pubkeyToVoter s pk of
        Inl e \<Rightarrow> ((None, Some e), s)
      | Inr voter \<Rightarrow>
         (let vote = NewVote (sm_BlockHash (vm_Message m)) (sm_Number (vm_Message m)) in
          if sm_AuthorityID (vm_Message m) = publicKeyBytes s
          then ((None, Some errVoteFromSelf), s)
          else
           (let err = validateVote env s vote;
                s1 = (case err of
                        None \<Rightarrow> s
                      | Some e \<Rightarrow>
                          if errors_Is e ErrBlockDoesNotExist \<or>
                             errors_Is e ErrDescendantNotFound \<or>
                             errors_Is e ErrEndNodeNotFound \<or>
                             errors_Is e ErrStartNodeNotFound
                          then addVote s from m else s)
            in case err of
                 Some e \<Rightarrow> ((None, Some e), s1)
               | None \<Rightarrow>
                  (let just = \<lparr>sv_Vote = vote,
                               sv_Signature = sm_Signature (vm_Message m),
                               sv_AuthorityID = pk\<rparr>;
                       (equivocated, s2) =
                          checkForEquivocation s1 voter just (sm_Stage (vm_Message m))
                   in if equivocated then ((None, Some ErrEquivocation), s2)
                      else ((Some vote, None),
                            storeVote s2 (sm_Stage (vm_Message m)) pk just)))))"

definition validateVoteMessage ::
  "('h, 'c, 'm) Env \<Rightarrow> 'm Service \<Rightarrow> peerID \<Rightarrow> VoteMessage
     \<Rightarrow> (Vote option \<times> error option) \<times> 'm Service" where
  "validateVoteMessage env s from m =
     (case NewPublicKey env (sm_AuthorityID (vm_Message m)) of
        Inl e \<Rightarrow> ((None, Some e), s)
      | Inr pk \<Rightarrow>
         (case validateMessageSignature env pk m of
            Some e \<Rightarrow> ((None, Some e), s)
          | None \<Rightarrow>
             if vm_SetID m \<noteq> setID s then ((None, Some ErrSetIDMismatch), s)
             else if vm_Round m < minRoundAccepted (round s) \<or>
                     vm_Round m > maxRoundAccepted (round s)
             then ((None, None), s)
             else if vm_Round m < round s then replyLagging env s from m
             else if vm_Round m > round s
             then ((None, Some (errRoundMismatch (vm_Round m) (round s))), addVote s from m)
             else validateCurrentRound env s from m pk))"

text \<open>A message passes the signature check of the validator.\<close>

definition validSignature :: "('h, 'c, 'm) Env \<Rightarrow> VoteMessage \<Rightarrow> bool" where
  "validSignature env m =
     (case NewPublicKey env (sm_AuthorityID (vm_Message m)) of
        Inl e \<Rightarrow> False
      | Inr pk \<Rightarrow> validateMessageSignature env pk m = None)"

section \<open>Epoch state (package state)\<close>

subsection \<open>Data model\<close>

text \<open>
  The items of a header's digest. Only the pre-runtime item is read: its data decodes to a
  BABE pre-digest, one of three variants, each with the slot number.
\<close>

datatype DigestItem =
    PreRuntimeDigest "32 word" bytes
  | ConsensusDigest "32 word" bytes
  | SealDigest "32 word" bytes

datatype BabePreDigest =
    BabePrimaryPreDigest "32 word" "64 word"
  | BabeSecondaryVRFPreDigest "32 word" "64 word"
  | BabeSecondaryPlainPreDigest "32 word" "64 word"

record Header =
  h_Number :: nat
  h_Digest :: "DigestItem list"

text \<open>
  The collaborators of the epoch state: the base state's \<open>loadFirstSlot\<close>, the decoder of
  pre-digests, the block state's \<open>HasHeaderInDatabase\<close>, the conversions between the
  announced data \<open>'n\<close> (\<open>NextEpochData\<close>), the epoch data \<open>'d\<close> and its raw form \<open>'r\<close>, the
  SCALE codec, and the failures of the key-value store (\<open>getErr\<close>, \<open>putErr\<close>: the error of
  a read or write of a key that fails for another reason than a missing key).
\<close>

record ('n, 'd, 'r) EpochEnv =
  loadFirstSlot :: "error + 64 word"
  DecodeBabePreDigest :: "bytes \<Rightarrow> error + BabePreDigest"
  HasHeaderInDatabase :: "Hash \<Rightarrow> error + bool"
  ToEpochData :: "'n \<Rightarrow> error + 'd"
  ToEpochDataRaw :: "'d \<Rightarrow> 'r"
  RawToEpochData :: "'r \<Rightarrow> error + 'd"
  Marshal :: "'r \<Rightarrow> error + bytes"
  Unmarshal :: "bytes \<Rightarrow> error + 'r"
  getErr :: "bytes \<Rightarrow> error option"
  putErr :: "bytes \<Rightarrow> error option"

text \<open>
  The epoch state: the table of the database under the prefix \<open>epoch\<close>, the epoch length,
  and the announcements kept in memory. The inner map of \<open>nextEpochData\<close> is the list of
  its entries in the order in which a \<open>range\<close> over it yields them (any order is possible).
\<close>

record 'n EpochState =
  db :: "bytes \<rightharpoonup> bytes"
  epochLength :: "64 word"
  skipToEpoch :: "64 word"
  nextEpochData :: "64 word \<rightharpoonup> (Hash \<times> 'n) list"

subsection \<open>Keys and the key-value store\<close>

definition epochDataPrefix :: bytes where
  "epochDataPrefix = map (of_nat \<circ> of_char) ''epochinfo''"

text \<open>\<open>binary.LittleEndian.PutUint64\<close>: the eight bytes of a number, lowest first.\<close>

definition PutUint64 :: "64 word \<Rightarrow> bytes" where
  "PutUint64 x = map (\<lambda>i. ucast (drop_bit (8 * i) x)) [0..<8]"

definition epochDataKey :: "64 word \<Rightarrow> bytes" where
  "epochDataKey epoch = epochDataPrefix @ PutUint64 epoch"

definition db_Get :: "('n, 'd, 'r) EpochEnv \<Rightarrow> 'n EpochState \<Rightarrow> bytes \<Rightarrow> error + bytes" where
  "db_Get env s k =
     (case getErr env k of
        Some e \<Rightarrow> Inl e
      | None \<Rightarrow> (case db s k of None \<Rightarrow> Inl ErrKeyNotFound | Some v \<Rightarrow> Inr v))"

definition db_Put ::
  "('n, 'd, 'r) EpochEnv \<Rightarrow> 'n EpochState \<Rightarrow> bytes \<Rightarrow> bytes \<Rightarrow> error option \<times> 'n EpochState" where
  "db_Put env s k v =
     (case putErr env k of
        Some e \<Rightarrow> (Some e, s)
      | None \<Rightarrow> (None, s\<lparr>db := (db s)(k \<mapsto> v)\<rparr>))"

subsection \<open>Operations\<close>

definition SlotNumber :: "BabePreDigest \<Rightarrow> 64 word" where
  "SlotNumber d =
     (case d of
        BabePrimaryPreDigest a n \<Rightarrow> n
      | BabeSecondaryVRFPreDigest a n \<Rightarrow> n
      | BabeSecondaryPlainPreDigest a n \<Rightarrow> n)"

text \<open>
  The loop of \<open>GetEpochForBlock\<close> over the digest: it returns at the first pre-runtime
  item. The division panics when the epoch length is 0.
\<close>

fun scanDigest ::
  "('n, 'd, 'r) EpochEnv \<Rightarrow> 64 word \<Rightarrow> 64 word \<Rightarrow> DigestItem list \<Rightarrow> (error + 64 word) outcome" where
  "scanDigest env firstSlot len [] =
     Returns (Inl (errors_New ''header does not contain pre-runtime digest''))"
| "scanDigest env firstSlot len (PreRuntimeDigest eng data # ds) =
     (case DecodeBabePreDigest env data of
        Inl e \<Rightarrow> Returns (Inl (Errorf ''failed to decode babe header: %w'' [] e))
      | Inr digest \<Rightarrow>
          (let slotNumber = SlotNumber digest in
           if slotNumber < firstSlot then Returns (Inr 0)
           else if len = 0 then Panics
           else Returns (Inr ((slotNumber - firstSlot) div len))))"
| "scanDigest env firstSlot len (d # ds) = scanDigest env firstSlot len ds"

definition GetEpochForBlock ::
  "('n, 'd, 'r) EpochEnv \<Rightarrow> 'n EpochState \<Rightarrow> Header option \<Rightarrow> (error + 64 word) outcome" where
  "GetEpochForBlock env s header =
     (case header of
        None \<Rightarrow> Returns (Inl (errors_New ''header is nil''))
      | Some h \<Rightarrow>
          (case loadFirstSlot env of
             Inl e \<Rightarrow> Returns (Inl e)
           | Inr firstSlot \<Rightarrow> scanDigest env firstSlot (epochLength s) (h_Digest h)))"

definition SetEpochData ::
  "('n, 'd, 'r) EpochEnv \<Rightarrow> 'n EpochState \<Rightarrow> 64 word \<Rightarrow> 'd \<Rightarrow> error option \<times> 'n EpochState" where
  "SetEpochData env s epoch info =
     (case Marshal env (ToEpochDataRaw env info) of
        Inl e \<Rightarrow> (Some e, s)
      | Inr enc \<Rightarrow> db_Put env s (epochDataKey epoch) enc)"

definition getEpochDataFromDatabase ::
  "('n, 'd, 'r) EpochEnv \<Rightarrow> 'n EpochState \<Rightarrow> 64 word \<Rightarrow> error + 'd" where
  "getEpochDataFromDatabase env s epoch =
     (case db_Get env s (epochDataKey epoch) of
        Inl e \<Rightarrow> Inl e
      | Inr enc \<Rightarrow>
          (case Unmarshal env enc of
             Inl e \<Rightarrow> Inl e
           | Inr raw \<Rightarrow> RawToEpochData env raw))"

text \<open>The loop of \<open>findFinalizedHeaderForEpoch\<close> over the entries of one epoch.\<close>

fun findPersisted :: "(Hash \<Rightarrow> error + bool) \<Rightarrow> (Hash \<times> 'n) list \<Rightarrow> error + 'n" where
  "findPersisted has [] = Inl errHashNotPersisted"
| "findPersisted has ((hash, inMemory) # rest) =
     (case has hash of
        Inl e \<Rightarrow> Inl (Errorf ''failed to check header exists in database: %w'' [] e)
      | Inr persisted \<Rightarrow> if \<not> persisted then findPersisted has rest else Inr inMemory)"

definition findFinalizedHeaderForEpoch ::
  "(64 word \<rightharpoonup> (Hash \<times> 'n) list) \<Rightarrow> ('n, 'd, 'r) EpochEnv \<Rightarrow> 64 word \<Rightarrow> error + 'n" where
  "findFinalizedHeaderForEpoch nextEpochMap env epoch =
     (case nextEpochMap epoch of
        None \<Rightarrow> Inl ErrEpochNotInMemory
      | Some hashes \<Rightarrow> findPersisted (HasHeaderInDatabase env) hashes)"

text \<open>The loop that removes from memory the epochs up to the one just persisted.\<close>

definition dropEpochsUpTo ::
  "64 word \<Rightarrow> (64 word \<rightharpoonup> (Hash \<times> 'n) list) \<Rightarrow> (64 word \<rightharpoonup> (Hash \<times> 'n) list)" where
  "dropEpochsUpTo nextEpoch m = (\<lambda>e. if e \<le> nextEpoch then None else m e)"

text \<open>
  The steps of \<open>FinalizeBABENextEpochData\<close> after the check of the database: find the
  announcement of a persisted block, convert it, store it, drop the older epochs.
\<close>

definition promoteNextEpochData ::
  "('n, 'd, 'r) EpochEnv \<Rightarrow> 'n EpochState \<Rightarrow> 64 word \<Rightarrow> error option \<times> 'n EpochState" where
  "promoteNextEpochData env s nextEpoch =
     (case findFinalizedHeaderForEpoch (nextEpochData s) env nextEpoch of
        Inl e \<Rightarrow> (Some (Errorf ''cannot find next epoch data: %w'' [] e), s)
      | Inr finalizedNextEpochData \<Rightarrow>
          (case ToEpochData env finalizedNextEpochData of
             Inl e \<Rightarrow> (Some (Errorf ''cannot transform epoch data: %w'' [] e), s)
           | Inr ed \<Rightarrow>
               (case SetEpochData env s nextEpoch ed of
                  (Some e, s1) \<Rightarrow> (Some (Errorf ''cannot set epoch data: %w'' [] e), s1)
                | (None, s1) \<Rightarrow>
                    (None, s1\<lparr>nextEpochData := dropEpochsUpTo nextEpoch (nextEpochData s1)\<rparr>))))"

text \<open>
  With a nil header \<open>GetEpochForBlock\<close> fails and the error message reads the header's
  number: a nil dereference.
\<close>

definition FinalizeBABENextEpochData ::
  "('n, 'd, 'r) EpochEnv \<Rightarrow> 'n EpochState \<Rightarrow> Header option
     \<Rightarrow> (error option) outcome \<times> 'n EpochState" where
  "FinalizeBABENextEpochData env s finalizedHeader =
     (case GetEpochForBlock env s finalizedHeader of
        Panics \<Rightarrow> (Panics, s)
      | OutOfFuel \<Rightarrow> (OutOfFuel, s)
      | Returns (Inl e) \<Rightarrow>
          (case finalizedHeader of
             None \<Rightarrow> (Panics, s)
           | Some h \<Rightarrow>
               (Returns (Some (Errorf ''cannot get epoch for block %d (%s): %w''
                                 [ArgNat (h_Number h)] e)), s))
      | Returns (Inr finalizedBlockEpoch) \<Rightarrow>
          (let nextEpoch = finalizedBlockEpoch + 1 in
           case getEpochDataFromDatabase env s nextEpoch of
             Inr epochInDatabase \<Rightarrow> (Returns None, s)
           | Inl e \<Rightarrow>
               if \<not> errors_Is e ErrKeyNotFound
               then (Returns (Some (Errorf
                       ''cannot check if next epoch data is already defined for epoch %d: %w''
                       [ArgNat (unat nextEpoch)] e)), s)
               else (case promoteNextEpochData env s nextEpoch of
                       (r, s1) \<Rightarrow> (Returns r, s1))))"

section \<open>Trie database (package trie)\<close>

subsection \<open>Writing the dirty nodes\<close>

text \<open>
  \<open>writeDirty\<close> changes no link between nodes: it reads the shape of the trie, writes
  encodings to a batch and clears dirty flags in place. So the shape is a value, each node
  carries its address, and the dirty flags are a store from addresses to flags (two
  occurrences of one address are one shared node). A trie has its root and its child tries,
  in the order in which a \<open>range\<close> over \<open>childTries\<close> yields them.
\<close>

type_synonym addr = nat

datatype Node = Leaf addr | Branch addr "Node option list"

datatype Trie = Trie (root: "Node option") (childTries: "Trie list")

fun addr_of :: "Node \<Rightarrow> addr" where
  "addr_of (Leaf a) = a"
| "addr_of (Branch a ch) = a"

text \<open>
  The collaborators: the node's \<open>EncodeAndHash\<close> (of the node at an address, as root or
  not; it gives the encoding and the hash), the batch's \<open>Put\<close> (\<open>batchPutErr\<close> is its
  error, if any) and \<open>Flush\<close>.
\<close>

record TrieEnv =
  EncodeAndHashAt :: "addr \<Rightarrow> bool \<Rightarrow> error + (bytes \<times> bytes)"
  batchPutErr :: "bytes \<Rightarrow> bytes \<Rightarrow> error option"
  flushErr :: "error option"

text \<open>
  The state of a traversal: the dirty flags, the batch (the pairs put, in order), and
  \<open>visited\<close>, the addresses of the nodes that passed the dirty check, in order. No branch
  reads \<open>visited\<close>; it names the visited nodes in the statements.
\<close>

record wstate =
  dirty :: "addr \<Rightarrow> bool"
  batch :: "(bytes \<times> bytes) list"
  visited :: "addr list"

definition SetDirty :: "wstate \<Rightarrow> addr \<Rightarrow> bool \<Rightarrow> wstate" where
  "SetDirty w a d = w\<lparr>dirty := (dirty w)(a := d)\<rparr>"

text \<open>The start of \<open>writeDirty\<close> on a dirty node: encode, hash, put in the batch.\<close>

definition putNode :: "TrieEnv \<Rightarrow> Trie \<Rightarrow> addr \<Rightarrow> wstate \<Rightarrow> error + wstate" where
  "putNode env t a w =
     (let w0 = w\<lparr>visited := visited w @ [a]\<rparr> in
      case EncodeAndHashAt env a (Some a = map_option addr_of (root t)) of
        Inl e \<Rightarrow> Inl (Errorf ''cannot encode and hash node with hash 0x%x: %w'' [] e)
      | Inr (encoding, hash) \<Rightarrow>
          (case batchPutErr env hash encoding of
             Some e \<Rightarrow>
               Inl (Errorf ''cannot put encoding of node with hash 0x%x in database: %w''
                      [ArgBytes hash] e)
           | None \<Rightarrow> Inr (w0\<lparr>batch := batch w0 @ [(hash, encoding)]\<rparr>)))"

text \<open>
  \<open>writeDirty\<close>, with its two loops: over the children of a branch, and over the child
  tries of the trie (run in every dirty branch, each on the child trie's own root).
  A failure leaves the state as it was when the failure happened.
\<close>

function (sequential) writeDirty :: "TrieEnv \<Rightarrow> Trie \<Rightarrow> Node option \<Rightarrow> wstate \<Rightarrow> error option \<times> wstate"
  and writeDirty_children ::
    "TrieEnv \<Rightarrow> Trie \<Rightarrow> Node option list \<Rightarrow> wstate \<Rightarrow> error option \<times> wstate"
  and writeDirty_childTries :: "TrieEnv \<Rightarrow> Trie list \<Rightarrow> wstate \<Rightarrow> error option \<times> wstate"
where
  "writeDirty env t None w = (None, w)"
| "writeDirty env t (Some (Leaf a)) w =
     (if \<not> dirty w a then (None, w)
      else case putNode env t a w of
             Inl e \<Rightarrow> (Some e, w\<lparr>visited := visited w @ [a]\<rparr>)
           | Inr w1 \<Rightarrow> (None, SetDirty w1 a False))"
| "writeDirty env t (Some (Branch a ch)) w =
     (if \<not> dirty w a then (None, w)
      else case putNode env t a w of
             Inl e \<Rightarrow> (Some e, w\<lparr>visited := visited w @ [a]\<rparr>)
           | Inr w1 \<Rightarrow>
               (case writeDirty_children env t ch w1 of
                  (Some e, w2) \<Rightarrow> (Some e, w2)
                | (None, w2) \<Rightarrow>
                    (case writeDirty_childTries env (childTries t) w2 of
                       (Some e, w3) \<Rightarrow>
                         (Some (Errorf ''failed to write dirty node=0x%x to database: %w'' [] e),
                          w3)
                     | (None, w3) \<Rightarrow> (None, SetDirty w3 a False))))"
| "writeDirty_children env t [] w = (None, w)"
| "writeDirty_children env t (child # rest) w =
     (case writeDirty env t child w of
        (Some e, w1) \<Rightarrow> (Some e, w1)
      | (None, w1) \<Rightarrow> writeDirty_children env t rest w1)"
| "writeDirty_childTries env [] w = (None, w)"
| "writeDirty_childTries env (childTrie # rest) w =
     (case writeDirty env childTrie (root childTrie) w of
        (Some e, w1) \<Rightarrow> (Some e, w1)
      | (None, w1) \<Rightarrow> writeDirty_childTries env rest w1)"
  by pat_completeness auto

lemma size_childTries: "size_list size (childTries t) < size t"
  by (cases t) simp

termination writeDirty
  by (relation "inv_image (less_than <*lex*> less_than)
        (\<lambda>x. case x of
           Inl (env, t, n, w) \<Rightarrow> (size t, size_option size n)
         | Inr (Inl (env, t, ch, w)) \<Rightarrow> (size t, size_list (size_option size) ch)
         | Inr (Inr (env, cts, w)) \<Rightarrow> (size_list size cts, 0))")
     (auto simp: size_childTries)

text \<open>Flushing a batch: its pairs are written in order.\<close>

definition applyBatch :: "(bytes \<times> bytes) list \<Rightarrow> (bytes \<rightharpoonup> bytes) \<Rightarrow> (bytes \<rightharpoonup> bytes)" where
  "applyBatch b d = foldl (\<lambda>m (k, v). m(k \<mapsto> v)) d b"

text \<open>
  \<open>WriteDirty\<close>: a new batch, the traversal from the root, then either \<open>Reset\<close> of the
  batch (on an error) or \<open>Flush\<close>. A flush that fails writes nothing (the store's batches
  are atomic). The result: the error, the database, and the final state of the traversal,
  whose batch is empty after a reset.
\<close>

definition WriteDirty ::
  "TrieEnv \<Rightarrow> Trie \<Rightarrow> (bytes \<rightharpoonup> bytes) \<Rightarrow> (addr \<Rightarrow> bool)
     \<Rightarrow> error option \<times> (bytes \<rightharpoonup> bytes) \<times> wstate" where
  "WriteDirty env t database flags =
     (case writeDirty env t (root t) \<lparr>dirty = flags, batch = [], visited = []\<rparr> of
        (Some e, w) \<Rightarrow> (Some e, database, w\<lparr>batch := []\<rparr>)
      | (None, w) \<Rightarrow>
          (case flushErr env of
             Some e \<Rightarrow> (Some e, database, w)
           | None \<Rightarrow> (None, applyBatch (batch w) database, w)))"

subsection \<open>Loading a proof\<close>

text \<open>
  A decoded node, with the fields the loader reads and writes. The children of a decoded
  branch are nil, an inlined leaf, or a leaf that only carries the child's hash.
\<close>

datatype DNode =
    DLeaf (n_Key: bytes) (n_Value: bytes) (n_Dirty: bool) (n_HashDigest: bytes)
      (n_Encoding: bytes)
  | DBranch (n_Key: bytes) (n_Value: bytes) (n_Children: "DNode option list") (n_Dirty: bool)
      (n_HashDigest: bytes) (n_Encoding: bytes)

text \<open>
  Modelled from the spec: the setters of the node package are missing from the sources.
  The spec: "decode each node with dirty=false; cache its raw encoding".
\<close>

fun node_SetDirty :: "DNode \<Rightarrow> bool \<Rightarrow> DNode" where
  "node_SetDirty (DLeaf k v d h e) d' = DLeaf k v d' h e"
| "node_SetDirty (DBranch k v ch d h e) d' = DBranch k v ch d' h e"

fun node_SetEncodingAndHash :: "DNode \<Rightarrow> bytes \<Rightarrow> bytes \<Rightarrow> DNode" where
  "node_SetEncodingAndHash (DLeaf k v d h e) e' h' = DLeaf k v d h' e'"
| "node_SetEncodingAndHash (DBranch k v ch d h e) e' h' = DBranch k v ch d h' e'"

text \<open>The collaborators: the decoder of a node and the node's \<open>EncodeAndHash\<close>.\<close>

record ProofEnv =
  Decode :: "bytes \<Rightarrow> error + DNode"
  EncodeAndHash :: "DNode \<Rightarrow> bool \<Rightarrow> error + (bytes \<times> bytes)"

text \<open>
  The first loop of \<open>LoadFromProof\<close>: decode each entry, index it by its hash, and make it
  the root when its hash is the root hash. The map and the root are kept as they are when
  an entry fails.
\<close>

fun decodeProofNodes ::
  "ProofEnv \<Rightarrow> bytes \<Rightarrow> nat \<Rightarrow> bytes list \<Rightarrow> (bytes \<rightharpoonup> DNode) \<Rightarrow> DNode option
     \<Rightarrow> error option \<times> (bytes \<rightharpoonup> DNode) \<times> DNode option" where
  "decodeProofNodes env rootHash i [] m r = (None, m, r)"
| "decodeProofNodes env rootHash i (rawNode # rest) m r =
     (case Decode env rawNode of
        Inl e \<Rightarrow>
          (Some (Errorf ''%w: at index %d: 0x%x'' [ArgNat i, ArgBytes rawNode] ErrDecodeNode),
           m, r)
      | Inr decoded \<Rightarrow>
          (let decodedNode = node_SetEncodingAndHash (node_SetDirty decoded False) rawNode []
           in case EncodeAndHash env decodedNode False of
                Inl e \<Rightarrow>
                  (Some (Errorf ''cannot encode and hash node at index %d: %w'' [ArgNat i] e),
                   m, r)
              | Inr (encoding, hash) \<Rightarrow>
                  decodeProofNodes env rootHash (Suc i) rest (m(hash \<mapsto> decodedNode))
                    (if hash = rootHash then Some decodedNode else r)))"

text \<open>
  \<open>loadProof\<close> attaches to every branch the nodes of the proof that its children point
  to, and goes on in each attached node. The recursion follows hashes through the map, so
  the model bounds its depth: \<open>None\<close> is the bound reached.
\<close>

fun loadProof :: "nat \<Rightarrow> (bytes \<rightharpoonup> DNode) \<Rightarrow> DNode \<Rightarrow> DNode option"
  and loadProof_children ::
    "nat \<Rightarrow> (bytes \<rightharpoonup> DNode) \<Rightarrow> DNode option list \<Rightarrow> DNode option list option"
where
  "loadProof fuel m (DLeaf k v d h e) = Some (DLeaf k v d h e)"
| "loadProof fuel m (DBranch k v ch d h e) =
     (case loadProof_children fuel m ch of
        None \<Rightarrow> None
      | Some ch' \<Rightarrow> Some (DBranch k v ch' d h e))"
| "loadProof_children fuel m [] = Some []"
| "loadProof_children fuel m (None # rest) =
     map_option (Cons None) (loadProof_children fuel m rest)"
| "loadProof_children fuel m (Some child # rest) =
     (case m (n_HashDigest child) of
        None \<Rightarrow> map_option (Cons (Some child)) (loadProof_children fuel m rest)
      | Some node \<Rightarrow>
          (case fuel of
             0 \<Rightarrow> None
           | Suc f \<Rightarrow>
               (case loadProof f m node of
                  None \<Rightarrow> None
                | Some node' \<Rightarrow>
                    map_option (Cons (Some node')) (loadProof_children fuel m rest))))"

text \<open>
  \<open>LoadFromProof\<close> on a trie with the given root. \<open>loadProof\<close> starts with the type of
  the root: a method call on a nil node when the root is nil.
\<close>

definition LoadFromProof ::
  "nat \<Rightarrow> ProofEnv \<Rightarrow> DNode option \<Rightarrow> bytes list \<Rightarrow> bytes
     \<Rightarrow> (error option) outcome \<times> DNode option" where
  "LoadFromProof fuel env troot proofEncodedNodes rootHash =
     (if length proofEncodedNodes = 0 then (Returns (Some ErrEmptyProof), troot)
      else case decodeProofNodes env rootHash 0 proofEncodedNodes Map.empty troot of
             (Some e, m, r) \<Rightarrow> (Returns (Some e), r)
           | (None, m, r) \<Rightarrow>
               (case r of
                  None \<Rightarrow> (Panics, r)
                | Some n \<Rightarrow>
                    (case loadProof fuel m n of
                       None \<Rightarrow> (OutOfFuel, r)
                     | Some n' \<Rightarrow> (Returns None, Some n'))))"

section \<open>Concrete inputs and predicates of the statements\<close>

text \<open>
  A service in round 5 of set 1 with the voters 10 and 11, our own key 99, and collaborators
  that succeed: every signature verifies, the blocks 170 and 187 are known descendants of
  the head, the finalised header of a round is its number.
\<close>

definition env_ok :: "(nat, nat, nat) Env" where
  "env_ok = \<lparr>NewPublicKey = Inr,
            Verify = (\<lambda>pk fv sig. Inr True),
            HasHeader = (\<lambda>h. Inr (h = 170 \<or> h = 187)),
            IsDescendantOf = (\<lambda>a b. Inr True),
            GetFinalisedHeader = (\<lambda>r sid. Inr (unat r)),
            newCommitMessage = (\<lambda>h r. Inr h),
            ToConsensusMessage = Inr,
            SendMessage = (\<lambda>p msg. None)\<rparr>"

definition svc5 :: "nat Service" where
  "svc5 = \<lparr>round = 5, setID = 1,
           voters = [\<lparr>Key = 10, ID = 0\<rparr>, \<lparr>Key = 11, ID = 1\<rparr>],
           head = 1, publicKeyBytes = 99,
           prevotes = Map.empty, precommits = Map.empty,
           pvEquivocations = Map.empty, pcEquivocations = Map.empty,
           tracker = [], network = [], warnings = []\<rparr>"

definition vote_msg :: "64 word \<Rightarrow> Subround \<Rightarrow> Hash \<Rightarrow> PublicKeyBytes \<Rightarrow> VoteMessage" where
  "vote_msg r st h a =
     \<lparr>vm_Round = r, vm_SetID = 1,
      vm_Message = \<lparr>sm_Stage = st, sm_BlockHash = h, sm_Number = 10,
                    sm_Signature = 7, sm_AuthorityID = a\<rparr>\<rparr>"

text \<open>The same collaborators, but no finalised header is found for any round.\<close>

definition env_no_header :: "(nat, nat, nat) Env" where
  "env_no_header = env_ok\<lparr>GetFinalisedHeader := (\<lambda>r sid. Inl ErrKeyNotFound)\<rparr>"

text \<open>The signed vote that the validator builds from a message of \<open>vote_msg\<close>.\<close>

definition signed_vote :: "Hash \<Rightarrow> PublicKeyBytes \<Rightarrow> SignedVote" where
  "signed_vote h a = \<lparr>sv_Vote = NewVote h 10, sv_Signature = 7, sv_AuthorityID = a\<rparr>"

text \<open>The service after voter 10 has prevoted for block 170.\<close>

definition svc5_voted :: "nat Service" where
  "svc5_voted = svc5\<lparr>prevotes := [10 \<mapsto> signed_vote 170 10]\<rparr>"

text \<open>
  The vote maps of a service agree with its equivocation maps: an authority with an entry in
  the equivocation map of a stage has no vote in the vote map of that stage.
\<close>

definition votes_inv :: "'m Service \<Rightarrow> bool" where
  "votes_inv s =
     ((\<forall>k. pvEquivocations s k \<noteq> None \<longrightarrow> prevotes s k = None) \<and>
      (\<forall>k. pcEquivocations s k \<noteq> None \<longrightarrow> precommits s k = None))"

text \<open>Collaborators for which only the signature 7 verifies.\<close>

definition env_sig7 :: "(nat, nat, nat) Env" where
  "env_sig7 = env_ok\<lparr>Verify := (\<lambda>pk fv sig. Inr (sig = 7))\<rparr>"


text \<open>A message with another signature.\<close>

definition resign :: "VoteMessage \<Rightarrow> SignatureBytes \<Rightarrow> VoteMessage" where
  "resign m sg = m\<lparr>vm_Message := (vm_Message m)\<lparr>sm_Signature := sg\<rparr>\<rparr>"

text \<open>
  A service whose own key 99 is in the voter set, after it has stored its own prevote for
  block 170.
\<close>

definition svc5_self :: "nat Service" where
  "svc5_self = svc5\<lparr>voters := [\<lparr>Key = 10, ID = 0\<rparr>, \<lparr>Key = 11, ID = 1\<rparr>, \<lparr>Key = 99, ID = 2\<rparr>],
                    prevotes := [99 \<mapsto> signed_vote 170 99]\<rparr>"


text \<open>A digest item is a pre-runtime digest (the type assertion of the scan).\<close>

fun isPreRuntimeDigest :: "DigestItem \<Rightarrow> bool" where
  "isPreRuntimeDigest (PreRuntimeDigest eng data) = True"
| "isPreRuntimeDigest d = False"

text \<open>
  An epoch state with epochs of 200 slots and first slot 1. Pre-digests are decoded from
  one byte, the slot number; announced data, epoch data and raw data are numbers, encoded
  as one byte. The header database holds block 3 only.
\<close>

definition eenv :: "(nat, nat, nat) EpochEnv" where
  "eenv = \<lparr>loadFirstSlot = Inr 1,
           DecodeBabePreDigest =
             (\<lambda>b. case b of [x] \<Rightarrow> Inr (BabePrimaryPreDigest 0 (ucast x))
                           | _ \<Rightarrow> Inl (External ''bad pre-digest'')),
           HasHeaderInDatabase = (\<lambda>h. Inr (h = 3)),
           ToEpochData = Inr,
           ToEpochDataRaw = id,
           RawToEpochData = Inr,
           Marshal = (\<lambda>r. Inr [of_nat r]),
           Unmarshal = (\<lambda>b. case b of [x] \<Rightarrow> Inr (unat x) | _ \<Rightarrow> Inl (External ''bad data'')),
           getErr = (\<lambda>k. None),
           putErr = (\<lambda>k. None)\<rparr>"

definition estate :: "nat EpochState" where
  "estate = \<lparr>db = Map.empty, epochLength = 200, skipToEpoch = 0,
             nextEpochData = [0 \<mapsto> [(1, 5)], 1 \<mapsto> [(2, 7), (3, 8)], 2 \<mapsto> [(4, 9)]]\<rparr>"

definition header_slot :: "8 word \<Rightarrow> Header" where
  "header_slot x =
     \<lparr>h_Number = 3,
      h_Digest = [ConsensusDigest 0 [], PreRuntimeDigest 0 [x], SealDigest 0 []]\<rparr>"

text \<open>What a traversal does to the state: flags are only cleared, the log of visits only
  grows, every node newly visited was dirty, and after a success is clean.\<close>

definition trav_ok :: "wstate \<Rightarrow> error option \<times> wstate \<Rightarrow> bool" where
  "trav_ok w r =
     ((\<forall>a. dirty (snd r) a \<longrightarrow> dirty w a) \<and>
      (\<exists>new. visited (snd r) = visited w @ new \<and>
             (\<forall>a \<in> set new. dirty w a) \<and>
             (fst r = None \<longrightarrow> (\<forall>a \<in> set new. \<not> dirty (snd r) a))))"


text \<open>
  A trie with the root branch 1, its children the leaf 2 and the branch 3, and the leaf 4
  under the branch 3; the nodes 1, 2 and 4 are dirty, the branch 3 is clean. Encoding,
  put and flush succeed.
\<close>

definition tenv :: TrieEnv where
  "tenv = \<lparr>EncodeAndHashAt = (\<lambda>a isRoot. Inr ([of_nat a], [of_nat a, 0])),
           batchPutErr = (\<lambda>k v. None),
           flushErr = None\<rparr>"

definition trie4 :: Trie where
  "trie4 = Trie (Some (Branch 1 [Some (Leaf 2), None, Some (Branch 3 [Some (Leaf 4)])])) []"

definition flags4 :: "addr \<Rightarrow> bool" where
  "flags4 a = (a = 1 \<or> a = 2 \<or> a = 4)"

text \<open>
  A decoder of one-byte leaves (anything else is malformed), and a node's hash equal to its
  encoding, as for the nodes that are short enough to be inlined.
\<close>

definition penv :: ProofEnv where
  "penv = \<lparr>Decode = (\<lambda>b. case b of [x] \<Rightarrow> Inr (DLeaf [] [x] True [] [])
                               | _ \<Rightarrow> Inl (External ''malformed node'')),
           EncodeAndHash = (\<lambda>n isRoot. Inr (n_Encoding n, n_Encoding n))\<rparr>"

section \<open>Properties of the vote validator\<close>

subsection \<open>Round window\<close>

lemma minRoundAccepted_unat: "unat (minRoundAccepted r) = unat r - 1"
proof (cases "r = 0")
  case True
  then show ?thesis by (simp add: minRoundAccepted_def word_less_nat_alt)
next
  case False
  then have "unat (r - 1) = unat r - 1"
    by (simp add: unat_minus_one)
  moreover from this have "\<not> r - 1 > r"
    by (simp add: word_less_nat_alt)
  ultimately show ?thesis by (simp add: minRoundAccepted_def)
qed

lemma maxRoundAccepted_le: "unat (maxRoundAccepted r) \<le> unat r + 1"
proof -
  have "unat (r + 1) = (unat r + unat (1::64 word)) mod 2 ^ 64"
    by (simp add: unat_word_ariths)
  also have "\<dots> \<le> unat r + unat (1::64 word)"
    by (rule mod_less_eq_dividend)
  finally show ?thesis by (simp add: maxRoundAccepted_def)
qed

text \<open>
  C4. A validly signed message with the service's set id whose round lies outside the
  window from \<open>max 0 (R - 1)\<close> to \<open>R + 1\<close> (read as numbers, so the lower bound is 0 at
  \<open>R = 0\<close>) is dropped: a nil vote, a nil error, and the service state (vote maps, tracker,
  log of sent messages) is unchanged.
\<close>

theorem validateVoteMessage_outside_window_dropped:
  assumes "validSignature env m"
    and "vm_SetID m = setID s"
    and "unat (vm_Round m) < unat (round s) - 1 \<or> unat (vm_Round m) > unat (round s) + 1"
  shows "validateVoteMessage env s from m = ((None, None), s)"
proof -
  from assms(1) obtain pk where pk: "NewPublicKey env (sm_AuthorityID (vm_Message m)) = Inr pk"
    and sig: "validateMessageSignature env pk m = None"
    by (auto simp: validSignature_def split: sum.splits)
  have "vm_Round m < minRoundAccepted (round s) \<or> vm_Round m > maxRoundAccepted (round s)"
  proof -
    from assms(3) show ?thesis
    proof
      assume "unat (vm_Round m) < unat (round s) - 1"
      then have "vm_Round m < minRoundAccepted (round s)"
        by (simp add: word_less_nat_alt minRoundAccepted_unat)
      then show ?thesis ..
    next
      assume "unat (vm_Round m) > unat (round s) + 1"
      with maxRoundAccepted_le [of "round s"]
      have "vm_Round m > maxRoundAccepted (round s)"
        by (simp add: word_less_nat_alt)
      then show ?thesis ..
    qed
  qed
  then show ?thesis
    using pk sig assms(2) by (simp add: validateVoteMessage_def)
qed


theorem validateVoteMessage_outside_window_dropped_witness:
  "validSignature env_ok (vote_msg 7 prevote 170 10) \<and>
   vm_SetID (vote_msg 7 prevote 170 10) = setID svc5 \<and>
   (unat (vm_Round (vote_msg 7 prevote 170 10)) < unat (round svc5) - 1 \<or>
    unat (vm_Round (vote_msg 7 prevote 170 10)) > unat (round svc5) + 1) \<and>
   validateVoteMessage env_ok svc5 ''peer'' (vote_msg 7 prevote 170 10) = ((None, None), svc5)"
proof -
  have a: "validSignature env_ok (vote_msg 7 prevote 170 10)"
    by (simp add: validSignature_def validateMessageSignature_def env_ok_def vote_msg_def)
  have b: "vm_SetID (vote_msg 7 prevote 170 10) = setID svc5"
    by (simp add: vote_msg_def svc5_def)
  have c: "unat (vm_Round (vote_msg 7 prevote 170 10)) < unat (round svc5) - 1 \<or>
           unat (vm_Round (vote_msg 7 prevote 170 10)) > unat (round svc5) + 1"
    by (simp add: vote_msg_def svc5_def)
  from validateVoteMessage_outside_window_dropped [OF a b c, of "''peer''"] a b c
  show ?thesis by simp
qed


lemma maxRoundAccepted_unat:
  assumes "r + 1 \<noteq> 0"
  shows "unat (maxRoundAccepted r) = unat r + 1"
proof -
  have lt: "unat r < 2 ^ 64"
    using unsigned_less [of r] by simp
  have "unat r + 1 \<noteq> 2 ^ 64"
  proof
    assume e: "unat r + 1 = 2 ^ 64"
    have "r + 1 = word_of_nat (unat r + 1)" by simp
    also have "\<dots> = word_of_nat (2 ^ 64)" by (simp only: e)
    also have "\<dots> = (0 :: 64 word)" by simp
    finally show False using assms by simp
  qed
  with lt have "unat r + 1 < 2 ^ 64" by simp
  moreover have "unat (r + 1) = (unat r + unat (1::64 word)) mod 2 ^ 64"
    by (simp add: unat_word_ariths)
  ultimately show ?thesis by (simp add: maxRoundAccepted_def)
qed

lemma round_in_window:
  assumes "r + 1 \<noteq> 0"
  shows "\<not> (r < minRoundAccepted r \<or> r > maxRoundAccepted r)"
  using maxRoundAccepted_unat [OF assms] minRoundAccepted_unat [of r]
  by (simp add: word_less_nat_alt)

lemma validateVoteMessage_current_round:
  assumes "NewPublicKey env (sm_AuthorityID (vm_Message m)) = Inr pk"
    and "validateMessageSignature env pk m = None"
    and "vm_SetID m = setID s"
    and "vm_Round m = round s"
    and "round s + 1 \<noteq> 0"
  shows "validateVoteMessage env s from m = validateCurrentRound env s from m pk"
  using assms round_in_window [OF assms(5)]
  by (simp add: validateVoteMessage_def)

lemma lagging_in_window:
  assumes "r \<noteq> 0" and "r + 1 \<noteq> 0"
  shows "\<not> (r - 1 < minRoundAccepted r \<or> r - 1 > maxRoundAccepted r)" and "r - 1 < r"
  using maxRoundAccepted_unat [OF assms(2)] minRoundAccepted_unat [of r] assms(1)
  by (simp_all add: word_less_nat_alt unat_minus_one unat_gt_0)

lemma validateVoteMessage_lagging:
  assumes "NewPublicKey env (sm_AuthorityID (vm_Message m)) = Inr pk"
    and "validateMessageSignature env pk m = None"
    and "vm_SetID m = setID s"
    and "vm_Round m = round s - 1"
    and "round s \<noteq> 0"
    and "round s + 1 \<noteq> 0"
  shows "validateVoteMessage env s from m = replyLagging env s from m"
  using assms lagging_in_window [OF assms(5,6)]
  by (simp add: validateVoteMessage_def)


lemma pubkeyToVoter_Key: "pubkeyToVoter s pk = Inr voter \<Longrightarrow> Key voter = pk"
  by (auto simp: pubkeyToVoter_def split: option.splits)

text \<open>
  C5 (as stated). With collaborators that find no finalised header, a validly signed
  message of round \<open>R - 1\<close> gets the error of the lookup, not the round-mismatch error,
  and nothing is sent.
\<close>

theorem validateVoteMessage_lagging_header_missing:
  "validSignature env_no_header (vote_msg 4 precommit 170 10) \<and>
   vm_SetID (vote_msg 4 precommit 170 10) = setID svc5 \<and>
   1 \<le> round svc5 \<and>
   vm_Round (vote_msg 4 precommit 170 10) = round svc5 - 1 \<and>
   fst (validateVoteMessage env_no_header svc5 ''peer'' (vote_msg 4 precommit 170 10))
     = (None, Some ErrKeyNotFound) \<and>
   fst (validateVoteMessage env_no_header svc5 ''peer'' (vote_msg 4 precommit 170 10))
     \<noteq> (None, Some (errRoundMismatch 4 5)) \<and>
   network (snd (validateVoteMessage env_no_header svc5 ''peer'' (vote_msg 4 precommit 170 10)))
     = []"
  by (simp add: validSignature_def validateMessageSignature_def env_no_header_def env_ok_def
      vote_msg_def svc5_def validateVoteMessage_def minRoundAccepted_def maxRoundAccepted_def
      replyLagging_def)

text \<open>
  C5 (amended). In a round \<open>R\<close> with \<open>1 \<le> R\<close> (and \<open>R\<close> below the largest 64-bit
  number), for a validly signed message with the service's set id and round \<open>R - 1\<close>:
  when the finalised header of \<open>(R - 1, set id)\<close> is found and the commit message is built
  and converted without error, the validator calls \<open>SendMessage\<close> exactly once, with the
  sending peer and that commit message, and returns the round-mismatch error; a failure of
  the send adds a warning to the log and changes nothing else.
\<close>

theorem validateVoteMessage_lagging_commit_reply:
  assumes "validSignature env m"
    and "vm_SetID m = setID s"
    and "round s \<noteq> 0" and "round s + 1 \<noteq> 0"
    and "vm_Round m = round s - 1"
    and "GetFinalisedHeader env (round s - 1) (setID s) = Inr header"
    and "newCommitMessage env header (round s - 1) = Inr cm"
    and "ToConsensusMessage env cm = Inr msg"
  shows "validateVoteMessage env s from m =
           ((None, Some (errRoundMismatch (round s - 1) (round s))),
            s\<lparr>network := network s @ [(from, msg)],
              warnings := warnings s @
                (case SendMessage env from msg of
                   None \<Rightarrow> []
                 | Some e \<Rightarrow> [''failed to send CommitMessage''])\<rparr>)"
proof -
  from assms(1) obtain pk where pk: "NewPublicKey env (sm_AuthorityID (vm_Message m)) = Inr pk"
    and sig: "validateMessageSignature env pk m = None"
    by (auto simp: validSignature_def split: sum.splits)
  have "validateVoteMessage env s from m = replyLagging env s from m"
    by (rule validateVoteMessage_lagging [OF pk sig assms(2) assms(5) assms(3) assms(4)])
  also have "\<dots> = ((None, Some (errRoundMismatch (round s - 1) (round s))),
            s\<lparr>network := network s @ [(from, msg)],
              warnings := warnings s @
                (case SendMessage env from msg of
                   None \<Rightarrow> []
                 | Some e \<Rightarrow> [''failed to send CommitMessage''])\<rparr>)"
    using assms(2,5,6,7,8)
    by (simp add: replyLagging_def Let_def split: option.splits)
  finally show ?thesis .
qed

theorem validateVoteMessage_lagging_commit_reply_witness:
  "validateVoteMessage env_ok svc5 ''peer'' (vote_msg 4 precommit 170 10) =
     ((None, Some (errRoundMismatch 4 5)), svc5\<lparr>network := [(''peer'', 4)]\<rparr>)"
proof -
  have a: "validSignature env_ok (vote_msg 4 precommit 170 10)"
    by (simp add: validSignature_def validateMessageSignature_def env_ok_def vote_msg_def)
  have b: "vm_SetID (vote_msg 4 precommit 170 10) = setID svc5"
    by (simp add: vote_msg_def svc5_def)
  have c: "round svc5 \<noteq> 0" "round svc5 + 1 \<noteq> 0"
    by (simp_all add: svc5_def)
  have d: "vm_Round (vote_msg 4 precommit 170 10) = round svc5 - 1"
    by (simp add: vote_msg_def svc5_def)
  have e: "GetFinalisedHeader env_ok (round svc5 - 1) (setID svc5) = Inr 4"
    by (simp add: env_ok_def svc5_def)
  have f: "newCommitMessage env_ok 4 (round svc5 - 1) = Inr 4"
    by (simp add: env_ok_def)
  have g: "ToConsensusMessage env_ok 4 = Inr 4"
    by (simp add: env_ok_def)
  have h: "SendMessage env_ok ''peer'' 4 = None"
    by (simp add: env_ok_def)
  from validateVoteMessage_lagging_commit_reply [OF a b c d e f g, of "''peer''"] h
  show ?thesis by (simp add: svc5_def)
qed


lemma validateVote_missing_block:
  "HasHeader env (v_Hash v) = Inr False \<Longrightarrow> validateVote env s v = Some ErrBlockDoesNotExist"
  by (simp add: validateVote_def)

lemma validateVote_ancestry_error:
  "HasHeader env (v_Hash v) = Inr True \<Longrightarrow> IsDescendantOf env (head s) (v_Hash v) = Inl e
     \<Longrightarrow> validateVote env s v = Some e"
  by (simp add: validateVote_def)




subsection \<open>Vote maps and equivocation maps\<close>

lemma votes_inv_svc5: "votes_inv svc5"
  by (simp add: votes_inv_def svc5_def)

lemma votes_inv_no_entry:
  "votes_inv s \<Longrightarrow> loadVote s k stage = Some v \<Longrightarrow> eqMap s stage k = None"
  by (cases stage) (auto simp: votes_inv_def loadVote_def eqMap_def)

lemma checkForEquivocation_votes_inv:
  assumes "votes_inv s"
  shows "votes_inv (snd (checkForEquivocation s voter vote stage))"
  using assms
  by (cases stage)
     (auto simp: checkForEquivocation_def Let_def votes_inv_def eqMap_def setEq_def
        loadVote_def deleteVote_def split: option.splits)

lemma checkForEquivocation_False:
  "checkForEquivocation s voter vote stage = (False, s') \<Longrightarrow>
   s' = s \<and> eqMap s stage (Key voter) = None"
  by (auto simp: checkForEquivocation_def Let_def split: option.splits if_splits)

lemma storeVote_votes_inv:
  "votes_inv s \<Longrightarrow> eqMap s stage k = None \<Longrightarrow> votes_inv (storeVote s stage k just)"
  by (cases stage) (auto simp: votes_inv_def eqMap_def storeVote_def)

lemma addVote_votes_inv: "votes_inv s \<Longrightarrow> votes_inv (addVote s from m)"
  by (simp add: votes_inv_def addVote_def)

lemma replyLagging_votes_inv:
  "votes_inv s \<Longrightarrow> votes_inv (snd (replyLagging env s from m))"
  by (auto simp: replyLagging_def votes_inv_def Let_def split: sum.splits option.splits)

lemma validateCurrentRound_votes_inv:
  assumes "votes_inv s"
  shows "votes_inv (snd (validateCurrentRound env s from m pk))"
proof (cases "pubkeyToVoter s pk")
  case (Inl e)
  with assms show ?thesis by (simp add: validateCurrentRound_def)
next
  case (Inr voter)
  have k: "Key voter = pk" using Inr by (rule pubkeyToVoter_Key)
  let ?vote = "NewVote (sm_BlockHash (vm_Message m)) (sm_Number (vm_Message m))"
  let ?just = "\<lparr>sv_Vote = ?vote, sv_Signature = sm_Signature (vm_Message m),
                 sv_AuthorityID = pk\<rparr>"
  let ?stage = "sm_Stage (vm_Message m)"
  show ?thesis
  proof (cases "sm_AuthorityID (vm_Message m) = publicKeyBytes s")
    case True
    with assms Inr show ?thesis by (simp add: validateCurrentRound_def Let_def)
  next
    case False
    show ?thesis
    proof (cases "validateVote env s ?vote")
      case (Some e)
      with assms Inr False show ?thesis
        by (simp add: validateCurrentRound_def Let_def addVote_votes_inv)
    next
      case None
      obtain b s2 where c: "checkForEquivocation s voter ?just ?stage = (b, s2)"
        by (cases "checkForEquivocation s voter ?just ?stage")
      from checkForEquivocation_votes_inv [OF assms, of voter ?just ?stage] c
      have i2: "votes_inv s2" by simp
      show ?thesis
      proof (cases b)
        case True
        with Inr False None c i2 show ?thesis
          by (simp add: validateCurrentRound_def Let_def)
      next
        case nb: False
        with c checkForEquivocation_False [of s voter ?just ?stage s2] k
        have "s2 = s" "eqMap s ?stage pk = None" by simp_all
        with assms have "votes_inv (storeVote s2 ?stage pk ?just)"
          by (simp add: storeVote_votes_inv)
        with Inr False None c nb show ?thesis
          by (simp add: validateCurrentRound_def Let_def)
      qed
    qed
  qed
qed

lemma validateVoteMessage_votes_inv:
  "votes_inv s \<Longrightarrow> votes_inv (snd (validateVoteMessage env s from m))"
  by (auto simp: validateVoteMessage_def addVote_votes_inv replyLagging_votes_inv
        validateCurrentRound_votes_inv split: sum.splits option.splits)




text \<open>
  C1 (as stated). Three inputs with a vote message of the current round from an authority
  of the voter set that has a stored prevote for block 170, the message being a prevote
  for another block. In the first the voted block 204 is not in the block database: the
  validator returns \<open>ErrBlockDoesNotExist\<close> and defers the message to the tracker. In the
  second the authority is our own key, whose prevote the service has stored: the validator
  returns \<open>errVoteFromSelf\<close>. In the third the signature does not verify: the validator
  returns \<open>ErrInvalidSignature\<close>. In none of them is anything written to the equivocation
  map, and the stored prevote stays in the map of the prevotes.
\<close>

theorem validateVoteMessage_equivocation_not_reached:
  "votes_inv svc5_voted \<and>
   find_voter (voters svc5_voted) 10 0 = Some 0 \<and>
   vm_Round (vote_msg 5 prevote 204 10) = round svc5_voted \<and>
   loadVote svc5_voted 10 prevote = Some (signed_vote 170 10) \<and>
   v_Hash (sv_Vote (signed_vote 170 10)) \<noteq> sm_BlockHash (vm_Message (vote_msg 5 prevote 204 10)) \<and>
   validateVoteMessage env_ok svc5_voted ''peer'' (vote_msg 5 prevote 204 10)
     = ((None, Some ErrBlockDoesNotExist),
        svc5_voted\<lparr>tracker := [(''peer'', vote_msg 5 prevote 204 10)]\<rparr>) \<and>
   votes_inv svc5_self \<and>
   find_voter (voters svc5_self) 99 0 = Some 2 \<and>
   vm_Round (vote_msg 5 prevote 187 99) = round svc5_self \<and>
   loadVote svc5_self 99 prevote = Some (signed_vote 170 99) \<and>
   v_Hash (sv_Vote (signed_vote 170 99)) \<noteq> sm_BlockHash (vm_Message (vote_msg 5 prevote 187 99)) \<and>
   validateVoteMessage env_ok svc5_self ''peer'' (vote_msg 5 prevote 187 99)
     = ((None, Some errVoteFromSelf), svc5_self) \<and>
   vm_Round (resign (vote_msg 5 prevote 187 10) 8) = round svc5_voted \<and>
   v_Hash (sv_Vote (signed_vote 170 10))
     \<noteq> sm_BlockHash (vm_Message (resign (vote_msg 5 prevote 187 10) 8)) \<and>
   validateVoteMessage env_sig7 svc5_voted ''peer'' (resign (vote_msg 5 prevote 187 10) 8)
     = ((None, Some ErrInvalidSignature), svc5_voted) \<and>
   eqMap svc5_voted prevote 10 = None \<and> eqMap svc5_self prevote 99 = None"
  by (simp add: validSignature_def validateMessageSignature_def env_ok_def env_sig7_def
      resign_def vote_msg_def svc5_def svc5_self_def svc5_voted_def validateVoteMessage_def
      minRoundAccepted_def maxRoundAccepted_def validateCurrentRound_def pubkeyToVoter_def
      validateVote_def NewVote_def eqMap_def loadVote_def signed_vote_def votes_inv_def
      addVote_def Let_def)

text \<open>
  C1 (amended). In a service state whose vote maps agree with its equivocation maps (the
  fresh state does, and the validator keeps it so), for a correctly signed vote of the
  current set and round (the round below the largest 64-bit number), from an authority of
  the voter set other than our own key, for a block that the block state validates: when
  the authority has a stored vote of the same stage (prevote and primary proposal share one
  map, precommit has the other) for a different block hash, the validator returns
  \<open>ErrEquivocation\<close>, the stage's equivocation map holds for the authority the stored
  vote and the new one, and the stage's vote map has no entry for the authority.
\<close>

theorem validateVoteMessage_equivocation_detected:
  assumes "NewPublicKey env (sm_AuthorityID (vm_Message m)) = Inr pk"
    and "validateMessageSignature env pk m = None"
    and "vm_SetID m = setID s"
    and "vm_Round m = round s"
    and "round s + 1 \<noteq> 0"
    and "pubkeyToVoter s pk = Inr voter"
    and "sm_AuthorityID (vm_Message m) \<noteq> publicKeyBytes s"
    and "vote = NewVote (sm_BlockHash (vm_Message m)) (sm_Number (vm_Message m))"
    and "validateVote env s vote = None"
    and "just = \<lparr>sv_Vote = vote, sv_Signature = sm_Signature (vm_Message m),
                  sv_AuthorityID = pk\<rparr>"
    and "stage = sm_Stage (vm_Message m)"
    and "votes_inv s"
    and "loadVote s pk stage = Some existingVote"
    and "v_Hash (sv_Vote existingVote) \<noteq> sm_BlockHash (vm_Message m)"
  shows "fst (validateVoteMessage env s from m) = (None, Some ErrEquivocation)
         \<and> eqMap (snd (validateVoteMessage env s from m)) stage pk = Some [existingVote, just]
         \<and> loadVote (snd (validateVoteMessage env s from m)) pk stage = None"
proof -
  let ?s' = "deleteVote (setEq s stage pk [existingVote, just]) pk stage"
  have k: "Key voter = pk"
    using assms(6) by (rule pubkeyToVoter_Key)
  have ne: "eqMap s stage pk = None"
    using assms(12,13) by (rule votes_inv_no_entry)
  have chk: "checkForEquivocation s voter just stage = (True, ?s')"
    using assms(8,10,13,14) ne k
    by (simp add: checkForEquivocation_def Let_def NewVote_def)
  have "validateVoteMessage env s from m = validateCurrentRound env s from m pk"
    by (rule validateVoteMessage_current_round [OF assms(1-5)])
  also have "\<dots> = ((None, Some ErrEquivocation), ?s')"
    using assms(6,7,9) chk
    by (simp add: validateCurrentRound_def Let_def assms(8,10,11) [symmetric])
  finally have r: "validateVoteMessage env s from m = ((None, Some ErrEquivocation), ?s')" .
  have e: "eqMap ?s' stage pk = Some [existingVote, just]"
    by (cases stage) (simp_all add: eqMap_def setEq_def deleteVote_def)
  have l: "loadVote ?s' pk stage = None"
    by (cases stage) (simp_all add: loadVote_def setEq_def deleteVote_def)
  from r e l show ?thesis by simp
qed

theorem validateVoteMessage_equivocation_detected_witness:
  "fst (validateVoteMessage env_ok svc5_voted ''peer'' (vote_msg 5 prevote 187 10))
     = (None, Some ErrEquivocation) \<and>
   eqMap (snd (validateVoteMessage env_ok svc5_voted ''peer'' (vote_msg 5 prevote 187 10)))
     prevote 10 = Some [signed_vote 170 10, signed_vote 187 10] \<and>
   loadVote (snd (validateVoteMessage env_ok svc5_voted ''peer'' (vote_msg 5 prevote 187 10)))
     10 prevote = None"
proof -
  let ?m = "vote_msg 5 prevote 187 10"
  have a: "NewPublicKey env_ok (sm_AuthorityID (vm_Message ?m)) = Inr 10"
    by (simp add: env_ok_def vote_msg_def)
  have b: "validateMessageSignature env_ok 10 ?m = None"
    by (simp add: validateMessageSignature_def env_ok_def)
  have c: "vm_SetID ?m = setID svc5_voted" "vm_Round ?m = round svc5_voted"
      "round svc5_voted + 1 \<noteq> 0"
    by (simp_all add: vote_msg_def svc5_voted_def svc5_def)
  have d: "pubkeyToVoter svc5_voted 10 = Inr \<lparr>Key = 10, ID = 0\<rparr>"
    by (simp add: pubkeyToVoter_def svc5_voted_def svc5_def)
  have e: "sm_AuthorityID (vm_Message ?m) \<noteq> publicKeyBytes svc5_voted"
    by (simp add: vote_msg_def svc5_voted_def svc5_def)
  have f: "NewVote 187 10 = NewVote (sm_BlockHash (vm_Message ?m)) (sm_Number (vm_Message ?m))"
    by (simp add: vote_msg_def)
  have g: "validateVote env_ok svc5_voted (NewVote 187 10) = None"
    by (simp add: validateVote_def env_ok_def NewVote_def)
  have h: "signed_vote 187 10 = \<lparr>sv_Vote = NewVote 187 10,
             sv_Signature = sm_Signature (vm_Message ?m), sv_AuthorityID = 10\<rparr>"
    by (simp add: signed_vote_def vote_msg_def)
  have i: "prevote = sm_Stage (vm_Message ?m)"
    by (simp add: vote_msg_def)
  have j: "votes_inv svc5_voted"
    by (simp add: votes_inv_def svc5_voted_def svc5_def)
  have k: "loadVote svc5_voted 10 prevote = Some (signed_vote 170 10)"
    by (simp add: loadVote_def svc5_voted_def)
  have l: "v_Hash (sv_Vote (signed_vote 170 10)) \<noteq> sm_BlockHash (vm_Message ?m)"
    by (simp add: signed_vote_def NewVote_def vote_msg_def)
  from validateVoteMessage_equivocation_detected [OF a b c d e f g h i j k l, of "''peer''"]
  show ?thesis .
qed

section \<open>Properties of the epoch state\<close>

lemma scanDigest_skip:
  "\<forall>d \<in> set pre. \<not> isPreRuntimeDigest d \<Longrightarrow>
   scanDigest env firstSlot len (pre @ ds) = scanDigest env firstSlot len ds"
proof (induction pre)
  case Nil
  then show ?case by simp
next
  case (Cons d pre)
  then show ?case by (cases d) simp_all
qed

lemma scanDigest_none:
  "\<forall>d \<in> set ds. \<not> isPreRuntimeDigest d \<Longrightarrow>
   scanDigest env firstSlot len ds =
     Returns (Inl (errors_New ''header does not contain pre-runtime digest''))"
  using scanDigest_skip [of ds env firstSlot len "[]"] by simp

text \<open>
  C3. For a non-nil header, with the first slot loaded from the base state: when the
  first pre-runtime item of the digest decodes to a pre-digest with slot number \<open>s\<close> (and
  the epoch length is not 0 when the division is reached), \<open>GetEpochForBlock\<close> returns 0
  for \<open>s < firstSlot\<close> and \<open>(s - firstSlot) / epochLength\<close> otherwise; when the digest has
  no pre-runtime item it fails with "header does not contain pre-runtime digest".
\<close>

theorem GetEpochForBlock_first_pre_runtime_digest:
  assumes "loadFirstSlot env = Inr firstSlot"
  shows "(h_Digest h = pre @ PreRuntimeDigest eng data # rest \<and>
          (\<forall>d \<in> set pre. \<not> isPreRuntimeDigest d) \<and>
          DecodeBabePreDigest env data = Inr digest \<and>
          (SlotNumber digest < firstSlot \<or> epochLength s \<noteq> 0)
          \<longrightarrow> GetEpochForBlock env s (Some h) =
                Returns (Inr (if SlotNumber digest < firstSlot then 0
                              else (SlotNumber digest - firstSlot) div epochLength s)))
       \<and> ((\<forall>d \<in> set (h_Digest h). \<not> isPreRuntimeDigest d)
          \<longrightarrow> GetEpochForBlock env s (Some h) =
                Returns (Inl (errors_New ''header does not contain pre-runtime digest'')))"
proof (intro conjI impI)
  assume a: "h_Digest h = pre @ PreRuntimeDigest eng data # rest \<and>
          (\<forall>d \<in> set pre. \<not> isPreRuntimeDigest d) \<and>
          DecodeBabePreDigest env data = Inr digest \<and>
          (SlotNumber digest < firstSlot \<or> epochLength s \<noteq> 0)"
  then have "scanDigest env firstSlot (epochLength s) (h_Digest h) =
             scanDigest env firstSlot (epochLength s) (PreRuntimeDigest eng data # rest)"
    by (simp add: scanDigest_skip)
  also have "\<dots> = Returns (Inr (if SlotNumber digest < firstSlot then 0
                              else (SlotNumber digest - firstSlot) div epochLength s))"
    using a by (auto simp: Let_def)
  finally show "GetEpochForBlock env s (Some h) =
                Returns (Inr (if SlotNumber digest < firstSlot then 0
                              else (SlotNumber digest - firstSlot) div epochLength s))"
    using assms by (simp add: GetEpochForBlock_def)
next
  assume "\<forall>d \<in> set (h_Digest h). \<not> isPreRuntimeDigest d"
  then show "GetEpochForBlock env s (Some h) =
                Returns (Inl (errors_New ''header does not contain pre-runtime digest''))"
    using assms by (simp add: GetEpochForBlock_def scanDigest_none)
qed

theorem GetEpochForBlock_first_pre_runtime_digest_witness:
  "GetEpochForBlock eenv estate (Some (header_slot 250)) = Returns (Inr 1) \<and>
   GetEpochForBlock eenv estate (Some \<lparr>h_Number = 3, h_Digest = [SealDigest 0 []]\<rparr>) =
     Returns (Inl (errors_New ''header does not contain pre-runtime digest''))"
proof -
  have a: "loadFirstSlot eenv = Inr 1"
    by (simp add: eenv_def)
  have b: "h_Digest (header_slot 250) = [ConsensusDigest 0 []] @ PreRuntimeDigest 0 [250] # [SealDigest 0 []] \<and>
          (\<forall>d \<in> set [ConsensusDigest 0 []]. \<not> isPreRuntimeDigest d) \<and>
          DecodeBabePreDigest eenv [250] = Inr (BabePrimaryPreDigest 0 250) \<and>
          (SlotNumber (BabePrimaryPreDigest 0 250) < 1 \<or> epochLength estate \<noteq> 0)"
    by (simp add: header_slot_def eenv_def estate_def)
  have c: "\<forall>d \<in> set (h_Digest \<lparr>h_Number = 3, h_Digest = [SealDigest 0 []]\<rparr>). \<not> isPreRuntimeDigest d"
    by simp
  have d: "(if SlotNumber (BabePrimaryPreDigest 0 250) < 1 then 0
            else (SlotNumber (BabePrimaryPreDigest 0 250) - 1) div epochLength estate) = 1"
    by (simp add: SlotNumber_def estate_def)
  from GetEpochForBlock_first_pre_runtime_digest [OF a, of "header_slot 250" "[ConsensusDigest 0 []]"
         0 "[250]" "[SealDigest 0 []]" "BabePrimaryPreDigest 0 250" estate] b
  have "GetEpochForBlock eenv estate (Some (header_slot 250)) =
          Returns (Inr (if SlotNumber (BabePrimaryPreDigest 0 250) < 1 then 0
            else (SlotNumber (BabePrimaryPreDigest 0 250) - 1) div epochLength estate))"
    by blast
  then have "GetEpochForBlock eenv estate (Some (header_slot 250)) = Returns (Inr 1)"
    by (simp only: d)
  moreover from GetEpochForBlock_first_pre_runtime_digest [OF a, of "\<lparr>h_Number = 3, h_Digest = [SealDigest 0 []]\<rparr>"] c
  have "GetEpochForBlock eenv estate (Some \<lparr>h_Number = 3, h_Digest = [SealDigest 0 []]\<rparr>) =
     Returns (Inl (errors_New ''header does not contain pre-runtime digest''))"
    by simp
  ultimately show ?thesis by simp
qed


lemma findPersisted_none:
  "\<forall>(hash, d) \<in> set entries. has hash = Inr False \<Longrightarrow>
   findPersisted has entries = Inl errHashNotPersisted"
  by (induction entries) auto

lemma findPersisted_some:
  "\<forall>(hash, d) \<in> set entries. \<exists>b. has hash = Inr b \<Longrightarrow>
   \<exists>(hash, d) \<in> set entries. has hash = Inr True \<Longrightarrow>
   \<exists>(hash, d) \<in> set entries. has hash = Inr True \<and> findPersisted has entries = Inr d"
proof (induction entries)
  case Nil
  then show ?case by simp
next
  case (Cons x entries)
  obtain hash d where x: "x = (hash, d)" by (cases x)
  from Cons.prems(1) x obtain b where b: "has hash = Inr b" by auto
  show ?case
  proof (cases b)
    case True
    with b x show ?thesis by simp
  next
    case False
    with b x Cons.prems have "\<forall>(hash, d) \<in> set entries. \<exists>b. has hash = Inr b"
      and "\<exists>(hash, d) \<in> set entries. has hash = Inr True"
      by auto
    from Cons.IH [OF this] False b x show ?thesis by auto
  qed
qed

lemma dropEpochsUpTo_le: "e \<le> nextEpoch \<Longrightarrow> dropEpochsUpTo nextEpoch m e = None"
  by (simp add: dropEpochsUpTo_def)

lemma dropEpochsUpTo_gt: "\<not> e \<le> nextEpoch \<Longrightarrow> dropEpochsUpTo nextEpoch m e = m e"
  by (simp add: dropEpochsUpTo_def)

lemma Finalize_reaches_promote:
  assumes "GetEpochForBlock env s (Some h) = Returns (Inr e)"
    and "getEpochDataFromDatabase env s (e + 1) = Inl err"
    and "errors_Is err ErrKeyNotFound"
  shows "FinalizeBABENextEpochData env s (Some h) =
           (Returns (fst (promoteNextEpochData env s (e + 1))),
            snd (promoteNextEpochData env s (e + 1)))"
  using assms by (simp add: FinalizeBABENextEpochData_def Let_def split: prod.splits)

lemma promote_success:
  assumes "nextEpochData s ne = Some entries"
    and "\<forall>(hash, d) \<in> set entries. \<exists>b. HasHeaderInDatabase env hash = Inr b"
    and "\<exists>(hash, d) \<in> set entries. HasHeaderInDatabase env hash = Inr True"
    and "\<forall>(hash, d) \<in> set entries. \<exists>ed enc. ToEpochData env d = Inr ed \<and>
           Marshal env (ToEpochDataRaw env ed) = Inr enc"
    and "putErr env (epochDataKey ne) = None"
  shows "\<exists>(hash, d) \<in> set entries. \<exists>ed enc.
           HasHeaderInDatabase env hash = Inr True \<and> ToEpochData env d = Inr ed \<and>
           Marshal env (ToEpochDataRaw env ed) = Inr enc \<and>
           promoteNextEpochData env s ne =
             (None, s\<lparr>db := (db s)(epochDataKey ne \<mapsto> enc),
                      nextEpochData := dropEpochsUpTo ne (nextEpochData s)\<rparr>)"
proof -
  from findPersisted_some [OF assms(2,3)]
  obtain hash d where hd: "(hash, d) \<in> set entries"
    "HasHeaderInDatabase env hash = Inr True"
    "findPersisted (HasHeaderInDatabase env) entries = Inr d"
    by auto
  from assms(4) hd(1) obtain ed enc where ed: "ToEpochData env d = Inr ed"
    "Marshal env (ToEpochDataRaw env ed) = Inr enc"
    by auto
  have "promoteNextEpochData env s ne =
             (None, s\<lparr>db := (db s)(epochDataKey ne \<mapsto> enc),
                      nextEpochData := dropEpochsUpTo ne (nextEpochData s)\<rparr>)"
    using assms(1,5) hd(3) ed
    by (simp add: promoteNextEpochData_def findFinalizedHeaderForEpoch_def SetEpochData_def
        db_Put_def)
  with hd ed show ?thesis by blast
qed


text \<open>
  C2. For a finalised header whose epoch \<open>e\<close> is found, with \<open>nextEpoch = e + 1\<close>:
  \<^item> when the epoch data of \<open>nextEpoch\<close> is read from the database, nothing changes and nil
    is returned;
  \<^item> when the database has no entry under the key of \<open>nextEpoch\<close>:
    with no entries in memory for \<open>nextEpoch\<close> the call fails with an error that wraps
    \<open>ErrEpochNotInMemory\<close>; with entries of which no announcing block is in the header
    database it fails with an error that wraps \<open>errHashNotPersisted\<close>; and when an
    announcing block is in the header database (the lookups, the conversion, the encoding
    and the write succeeding) the data of an entry whose announcing block is in the header
    database is stored under the key of \<open>nextEpoch\<close> and every epoch up to \<open>nextEpoch\<close> is
    removed from memory, the later ones staying.
\<close>

theorem FinalizeBABENextEpochData_promotes:
  assumes "GetEpochForBlock env s (Some h) = Returns (Inr e)"
    and "nextEpoch = e + 1"
  shows "(getEpochDataFromDatabase env s nextEpoch = Inr persisted
          \<longrightarrow> FinalizeBABENextEpochData env s (Some h) = (Returns None, s))
       \<and> (getErr env (epochDataKey nextEpoch) = None \<and> db s (epochDataKey nextEpoch) = None \<and>
          nextEpochData s nextEpoch = None
          \<longrightarrow> FinalizeBABENextEpochData env s (Some h) =
                (Returns (Some (Errorf ''cannot find next epoch data: %w'' [] ErrEpochNotInMemory)),
                 s))
       \<and> (getErr env (epochDataKey nextEpoch) = None \<and> db s (epochDataKey nextEpoch) = None \<and>
          nextEpochData s nextEpoch = Some entries \<and>
          (\<forall>(hash, d) \<in> set entries. HasHeaderInDatabase env hash = Inr False)
          \<longrightarrow> FinalizeBABENextEpochData env s (Some h) =
                (Returns (Some (Errorf ''cannot find next epoch data: %w'' [] errHashNotPersisted)),
                 s))
       \<and> (getErr env (epochDataKey nextEpoch) = None \<and> db s (epochDataKey nextEpoch) = None \<and>
          nextEpochData s nextEpoch = Some entries \<and>
          (\<forall>(hash, d) \<in> set entries. \<exists>b. HasHeaderInDatabase env hash = Inr b) \<and>
          (\<exists>(hash, d) \<in> set entries. HasHeaderInDatabase env hash = Inr True) \<and>
          (\<forall>(hash, d) \<in> set entries. \<exists>ed enc. ToEpochData env d = Inr ed \<and>
             Marshal env (ToEpochDataRaw env ed) = Inr enc) \<and>
          putErr env (epochDataKey nextEpoch) = None
          \<longrightarrow> (\<exists>(hash, d) \<in> set entries. \<exists>ed enc.
                 HasHeaderInDatabase env hash = Inr True \<and> ToEpochData env d = Inr ed \<and>
                 Marshal env (ToEpochDataRaw env ed) = Inr enc \<and>
                 FinalizeBABENextEpochData env s (Some h) =
                   (Returns None,
                    s\<lparr>db := (db s)(epochDataKey nextEpoch \<mapsto> enc),
                      nextEpochData := dropEpochsUpTo nextEpoch (nextEpochData s)\<rparr>))
               \<and> (\<forall>e'. nextEpochData (snd (FinalizeBABENextEpochData env s (Some h))) e' =
                         (if e' \<le> nextEpoch then None else nextEpochData s e')))"
proof (intro conjI impI)
  assume "getEpochDataFromDatabase env s nextEpoch = Inr persisted"
  then show "FinalizeBABENextEpochData env s (Some h) = (Returns None, s)"
    using assms by (simp add: FinalizeBABENextEpochData_def Let_def)
next
  assume a: "getErr env (epochDataKey nextEpoch) = None \<and> db s (epochDataKey nextEpoch) = None \<and>
          nextEpochData s nextEpoch = None"
  then have g: "getEpochDataFromDatabase env s (e + 1) = Inl ErrKeyNotFound"
    using assms(2) by (simp add: getEpochDataFromDatabase_def db_Get_def)
  have "promoteNextEpochData env s (e + 1) =
          (Some (Errorf ''cannot find next epoch data: %w'' [] ErrEpochNotInMemory), s)"
    using a assms(2) by (simp add: promoteNextEpochData_def findFinalizedHeaderForEpoch_def)
  with Finalize_reaches_promote [OF assms(1) g]
  show "FinalizeBABENextEpochData env s (Some h) =
                (Returns (Some (Errorf ''cannot find next epoch data: %w'' [] ErrEpochNotInMemory)),
                 s)"
    by simp
next
  assume a: "getErr env (epochDataKey nextEpoch) = None \<and> db s (epochDataKey nextEpoch) = None \<and>
          nextEpochData s nextEpoch = Some entries \<and>
          (\<forall>(hash, d) \<in> set entries. HasHeaderInDatabase env hash = Inr False)"
  then have g: "getEpochDataFromDatabase env s (e + 1) = Inl ErrKeyNotFound"
    using assms(2) by (simp add: getEpochDataFromDatabase_def db_Get_def)
  from a have "findPersisted (HasHeaderInDatabase env) entries = Inl errHashNotPersisted"
    by (simp add: findPersisted_none)
  with a have "promoteNextEpochData env s (e + 1) =
          (Some (Errorf ''cannot find next epoch data: %w'' [] errHashNotPersisted), s)"
    using assms(2) by (simp add: promoteNextEpochData_def findFinalizedHeaderForEpoch_def)
  with Finalize_reaches_promote [OF assms(1) g]
  show "FinalizeBABENextEpochData env s (Some h) =
                (Returns (Some (Errorf ''cannot find next epoch data: %w'' [] errHashNotPersisted)),
                 s)"
    by simp
next
  assume a: "getErr env (epochDataKey nextEpoch) = None \<and> db s (epochDataKey nextEpoch) = None \<and>
          nextEpochData s nextEpoch = Some entries \<and>
          (\<forall>(hash, d) \<in> set entries. \<exists>b. HasHeaderInDatabase env hash = Inr b) \<and>
          (\<exists>(hash, d) \<in> set entries. HasHeaderInDatabase env hash = Inr True) \<and>
          (\<forall>(hash, d) \<in> set entries. \<exists>ed enc. ToEpochData env d = Inr ed \<and>
             Marshal env (ToEpochDataRaw env ed) = Inr enc) \<and>
          putErr env (epochDataKey nextEpoch) = None"
  then have g: "getEpochDataFromDatabase env s (e + 1) = Inl ErrKeyNotFound"
    using assms(2) by (simp add: getEpochDataFromDatabase_def db_Get_def)
  have fin: "FinalizeBABENextEpochData env s (Some h) =
           (Returns (fst (promoteNextEpochData env s nextEpoch)),
            snd (promoteNextEpochData env s nextEpoch))"
    using Finalize_reaches_promote [OF assms(1) g] assms(2) by simp
  from a have p: "\<exists>(hash, d) \<in> set entries. \<exists>ed enc.
           HasHeaderInDatabase env hash = Inr True \<and> ToEpochData env d = Inr ed \<and>
           Marshal env (ToEpochDataRaw env ed) = Inr enc \<and>
           promoteNextEpochData env s nextEpoch =
             (None, s\<lparr>db := (db s)(epochDataKey nextEpoch \<mapsto> enc),
                      nextEpochData := dropEpochsUpTo nextEpoch (nextEpochData s)\<rparr>)"
    by (intro promote_success) simp_all
  then obtain hash d ed enc where hd: "(hash, d) \<in> set entries"
    "HasHeaderInDatabase env hash = Inr True" "ToEpochData env d = Inr ed"
    "Marshal env (ToEpochDataRaw env ed) = Inr enc"
    "promoteNextEpochData env s nextEpoch =
             (None, s\<lparr>db := (db s)(epochDataKey nextEpoch \<mapsto> enc),
                      nextEpochData := dropEpochsUpTo nextEpoch (nextEpochData s)\<rparr>)"
    by blast
  have r: "FinalizeBABENextEpochData env s (Some h) =
                   (Returns None,
                    s\<lparr>db := (db s)(epochDataKey nextEpoch \<mapsto> enc),
                      nextEpochData := dropEpochsUpTo nextEpoch (nextEpochData s)\<rparr>)"
    using fin hd(5) by simp
  have one: "\<exists>(hash, d) \<in> set entries. \<exists>ed enc.
                 HasHeaderInDatabase env hash = Inr True \<and> ToEpochData env d = Inr ed \<and>
                 Marshal env (ToEpochDataRaw env ed) = Inr enc \<and>
                 FinalizeBABENextEpochData env s (Some h) =
                   (Returns None,
                    s\<lparr>db := (db s)(epochDataKey nextEpoch \<mapsto> enc),
                      nextEpochData := dropEpochsUpTo nextEpoch (nextEpochData s)\<rparr>)"
    using hd(1-4) r by blast
  have two: "\<forall>e'. nextEpochData (snd (FinalizeBABENextEpochData env s (Some h))) e' =
                         (if e' \<le> nextEpoch then None else nextEpochData s e')"
    by (simp add: r dropEpochsUpTo_def)
  show "\<exists>(hash, d) \<in> set entries. \<exists>ed enc.
                 HasHeaderInDatabase env hash = Inr True \<and> ToEpochData env d = Inr ed \<and>
                 Marshal env (ToEpochDataRaw env ed) = Inr enc \<and>
                 FinalizeBABENextEpochData env s (Some h) =
                   (Returns None,
                    s\<lparr>db := (db s)(epochDataKey nextEpoch \<mapsto> enc),
                      nextEpochData := dropEpochsUpTo nextEpoch (nextEpochData s)\<rparr>)"
    by (rule one)
  show "\<forall>e'. nextEpochData (snd (FinalizeBABENextEpochData env s (Some h))) e' =
                         (if e' \<le> nextEpoch then None else nextEpochData s e')"
    by (rule two)
qed


theorem FinalizeBABENextEpochData_promotes_witness:
  "fst (FinalizeBABENextEpochData eenv estate (Some (header_slot 100))) = Returns None \<and>
   db (snd (FinalizeBABENextEpochData eenv estate (Some (header_slot 100)))) (epochDataKey 1)
     = Some [8] \<and>
   nextEpochData (snd (FinalizeBABENextEpochData eenv estate (Some (header_slot 100)))) 1 = None \<and>
   nextEpochData (snd (FinalizeBABENextEpochData eenv estate (Some (header_slot 100)))) 2
     = Some [(4, 9)]"
proof -
  let ?entries = "[(2, 7), (3, 8)] :: (Hash \<times> nat) list"
  have a: "GetEpochForBlock eenv estate (Some (header_slot 100)) = Returns (Inr 0)"
    by (simp add: GetEpochForBlock_def eenv_def estate_def header_slot_def SlotNumber_def)
  have b: "(1 :: 64 word) = 0 + 1"
    by simp
  have c: "getErr eenv (epochDataKey 1) = None \<and> db estate (epochDataKey 1) = None \<and>
          nextEpochData estate 1 = Some ?entries \<and>
          (\<forall>(hash, d) \<in> set ?entries. \<exists>b. HasHeaderInDatabase eenv hash = Inr b) \<and>
          (\<exists>(hash, d) \<in> set ?entries. HasHeaderInDatabase eenv hash = Inr True) \<and>
          (\<forall>(hash, d) \<in> set ?entries. \<exists>ed enc. ToEpochData eenv d = Inr ed \<and>
             Marshal eenv (ToEpochDataRaw eenv ed) = Inr enc) \<and>
          putErr eenv (epochDataKey 1) = None"
    by (simp add: eenv_def estate_def)
  from FinalizeBABENextEpochData_promotes [OF a b, of _ ?entries] c
  have ex: "\<exists>(hash, d) \<in> set ?entries. \<exists>ed enc.
                 HasHeaderInDatabase eenv hash = Inr True \<and> ToEpochData eenv d = Inr ed \<and>
                 Marshal eenv (ToEpochDataRaw eenv ed) = Inr enc \<and>
                 FinalizeBABENextEpochData eenv estate (Some (header_slot 100)) =
                   (Returns None,
                    estate\<lparr>db := (db estate)(epochDataKey 1 \<mapsto> enc),
                      nextEpochData := dropEpochsUpTo 1 (nextEpochData estate)\<rparr>)"
    by blast
  have t: "HasHeaderInDatabase eenv 2 = Inr False" "ToEpochData eenv 8 = Inr 8"
    "Marshal eenv (ToEpochDataRaw eenv 8) = Inr [8]"
    by (simp_all add: eenv_def)
  from ex t have r: "FinalizeBABENextEpochData eenv estate (Some (header_slot 100)) =
                   (Returns None,
                    estate\<lparr>db := (db estate)(epochDataKey 1 \<mapsto> [8]),
                      nextEpochData := dropEpochsUpTo 1 (nextEpochData estate)\<rparr>)"
    by auto
  show ?thesis
    unfolding r by (simp add: dropEpochsUpTo_def estate_def word_le_nat_alt)
qed


section \<open>Properties of the trie database\<close>

lemma trav_ok_refl: "trav_ok w (None, w)"
  by (simp add: trav_ok_def)

lemma trav_ok_trans:
  assumes "trav_ok w (None, w1)" and "trav_ok w1 (e, w2)"
  shows "trav_ok w (e, w2)"
proof -
  from assms(1) obtain n1 where n1: "visited w1 = visited w @ n1"
    "\<forall>a \<in> set n1. dirty w a" "\<forall>a \<in> set n1. \<not> dirty w1 a"
    and d1: "\<forall>a. dirty w1 a \<longrightarrow> dirty w a"
    by (auto simp: trav_ok_def)
  from assms(2) obtain n2 where n2: "visited w2 = visited w1 @ n2"
    "\<forall>a \<in> set n2. dirty w1 a" "e = None \<longrightarrow> (\<forall>a \<in> set n2. \<not> dirty w2 a)"
    and d2: "\<forall>a. dirty w2 a \<longrightarrow> dirty w1 a"
    by (auto simp: trav_ok_def)
  have "visited w2 = visited w @ (n1 @ n2)"
    using n1(1) n2(1) by simp
  moreover have "\<forall>a \<in> set (n1 @ n2). dirty w a"
    using n1(2) n2(2) d1 by auto
  moreover have "e = None \<longrightarrow> (\<forall>a \<in> set (n1 @ n2). \<not> dirty w2 a)"
    using n1(3) n2(3) d2 by auto
  moreover have "\<forall>a. dirty w2 a \<longrightarrow> dirty w a"
    using d1 d2 by blast
  ultimately show ?thesis
    unfolding trav_ok_def by (metis fst_conv snd_conv)
qed

lemma putNode_Inr:
  "putNode env t a w = Inr w1 \<Longrightarrow>
   dirty w1 = dirty w \<and> visited w1 = visited w @ [a] \<and> (\<exists>p. batch w1 = batch w @ [p])"
  by (auto simp: putNode_def Let_def split: sum.splits option.splits prod.splits)


lemma trav_visit_fail: "dirty w a \<Longrightarrow> trav_ok w (Some e, w\<lparr>visited := visited w @ [a]\<rparr>)"
  by (simp add: trav_ok_def)

lemma trav_leaf:
  "dirty w a \<Longrightarrow> putNode env t a w = Inr w1 \<Longrightarrow> trav_ok w (None, SetDirty w1 a False)"
  by (drule putNode_Inr) (auto simp: trav_ok_def SetDirty_def)

lemma trav_after_put:
  assumes "dirty w a" and "putNode env t a w = Inr w1" and "trav_ok w1 (Some e, w2)"
  shows "trav_ok w (Some e', w2)"
proof -
  from putNode_Inr [OF assms(2)] have p: "dirty w1 = dirty w" "visited w1 = visited w @ [a]"
    by simp_all
  from assms(3) obtain new where n: "visited w2 = visited w1 @ new" "\<forall>a \<in> set new. dirty w1 a"
    and d: "\<forall>a. dirty w2 a \<longrightarrow> dirty w1 a"
    by (auto simp: trav_ok_def)
  have "visited w2 = visited w @ (a # new)" using n(1) p(2) by simp
  moreover have "\<forall>x \<in> set (a # new). dirty w x" using n(2) p(1) assms(1) by simp
  ultimately show ?thesis
    using d p(1) unfolding trav_ok_def by (metis fst_conv snd_conv option.distinct(1))
qed

lemma trav_branch_done:
  assumes "dirty w a" and "putNode env t a w = Inr w1" and "trav_ok w1 (None, w3)"
  shows "trav_ok w (None, SetDirty w3 a False)"
proof -
  from putNode_Inr [OF assms(2)] have p: "dirty w1 = dirty w" "visited w1 = visited w @ [a]"
    by simp_all
  from assms(3) obtain new where n: "visited w3 = visited w1 @ new" "\<forall>a \<in> set new. dirty w1 a"
    "\<forall>a \<in> set new. \<not> dirty w3 a"
    and d: "\<forall>a. dirty w3 a \<longrightarrow> dirty w1 a"
    by (auto simp: trav_ok_def)
  have "visited (SetDirty w3 a False) = visited w @ (a # new)"
    using n(1) p(2) by (simp add: SetDirty_def)
  moreover have "\<forall>x \<in> set (a # new). dirty w x" using n(2) p(1) assms(1) by simp
  moreover have "\<forall>x \<in> set (a # new). \<not> dirty (SetDirty w3 a False) x"
    using n(3) by (simp add: SetDirty_def)
  moreover have "\<forall>x. dirty (SetDirty w3 a False) x \<longrightarrow> dirty w x"
    using d p(1) by (simp add: SetDirty_def)
  ultimately show ?thesis
    unfolding trav_ok_def by (metis fst_conv snd_conv)
qed

lemma writeDirty_trav_ok:
  "trav_ok w (writeDirty env t n w)"
  "trav_ok w (writeDirty_children env t ch w)"
  "trav_ok w (writeDirty_childTries env cts w)"
proof (induction env t n w and env t ch w and env cts w
       rule: writeDirty_writeDirty_children_writeDirty_childTries.induct)
  case (1 env t w)
  show ?case by (simp add: trav_ok_refl)
next
  case (2 env t a w)
  show ?case
    by (auto simp: trav_ok_refl trav_visit_fail trav_leaf split: sum.splits)
next
  case (3 env t a ch w)
  show ?case
  proof (cases "dirty w a")
    case False
    then show ?thesis by (simp add: trav_ok_refl)
  next
    case True
    show ?thesis
    proof (cases "putNode env t a w")
      case (Inl e)
      with True show ?thesis by (simp add: trav_visit_fail)
    next
      case (Inr w1)
      obtain e2 w2 where c: "writeDirty_children env t ch w1 = (e2, w2)"
        by (cases "writeDirty_children env t ch w1")
      from "3.IH"(1) True Inr c have t2: "trav_ok w1 (e2, w2)" by auto
      show ?thesis
      proof (cases e2)
        case (Some e)
        with t2 have "trav_ok w (Some e, w2)"
          using trav_after_put [OF True Inr] by blast
        with True Inr c Some show ?thesis by simp
      next
        case None
        obtain e3 w3 where ct: "writeDirty_childTries env (childTries t) w2 = (e3, w3)"
          by (cases "writeDirty_childTries env (childTries t) w2")
        have c': "(None, w2) = writeDirty_children env t ch w1"
          using c None by simp
        from "3.IH"(2) True Inr c' ct
        have t3: "trav_ok w2 (e3, w3)" by fastforce
        from t2 None t3 have t13: "trav_ok w1 (e3, w3)"
          using trav_ok_trans by blast
        show ?thesis
        proof (cases e3)
          case (Some e)
          with t13 have "trav_ok w
             (Some (Errorf ''failed to write dirty node=0x%x to database: %w'' [] e), w3)"
            using trav_after_put [OF True Inr] by blast
          with True Inr c None ct Some show ?thesis by simp
        next
          case None3: None
          with t13 have "trav_ok w (None, SetDirty w3 a False)"
            using trav_branch_done [OF True Inr] by blast
          with True Inr c None ct None3 show ?thesis by simp
        qed
      qed
    qed
  qed
next
  case (4 env t w)
  show ?case by (simp add: trav_ok_refl)
next
  case (5 env t child rest w)
  obtain e1 w1 where c: "writeDirty env t child w = (e1, w1)"
    by (cases "writeDirty env t child w")
  from "5.IH"(1) c have t1: "trav_ok w (e1, w1)" by simp
  show ?case
  proof (cases e1)
    case (Some e)
    with c t1 show ?thesis by simp
  next
    case None
    have c': "(None, w1) = writeDirty env t child w"
      using c None by simp
    from "5.IH"(2) c'
    have "trav_ok w1 (writeDirty_children env t rest w1)" by fastforce
    with t1 None have "trav_ok w (writeDirty_children env t rest w1)"
      using trav_ok_trans by (metis prod.collapse)
    with c None show ?thesis by simp
  qed
next
  case (6 env w)
  show ?case by (simp add: trav_ok_refl)
next
  case (7 env childTrie rest w)
  obtain e1 w1 where c: "writeDirty env childTrie (root childTrie) w = (e1, w1)"
    by (cases "writeDirty env childTrie (root childTrie) w")
  from "7.IH"(1) c have t1: "trav_ok w (e1, w1)" by simp
  show ?case
  proof (cases e1)
    case (Some e)
    with c t1 show ?thesis by simp
  next
    case None
    have c': "(None, w1) = writeDirty env childTrie (root childTrie) w"
      using c None by simp
    from "7.IH"(2) c'
    have "trav_ok w1 (writeDirty_childTries env rest w1)" by fastforce
    with t1 None have "trav_ok w (writeDirty_childTries env rest w1)"
      using trav_ok_trans by (metis prod.collapse)
    with c None show ?thesis by simp
  qed
qed


text \<open>
  C7. \<open>writeDirty\<close> on a node whose dirty flag is clear returns at once: nothing is
  visited or written, in the node or below it. Every node that \<open>WriteDirty\<close> visits had
  its dirty flag set when \<open>WriteDirty\<close> began. When \<open>WriteDirty\<close> returns no error (the
  traversal and the flush succeeded), every visited node is clean and the database is the
  old one with the batch written to it. When the traversal fails, \<open>WriteDirty\<close> returns the
  error, the batch is reset and the database is unchanged.
\<close>

theorem WriteDirty_writes_dirty_nodes:
  "(\<not> dirty w (addr_of n) \<longrightarrow> writeDirty env t (Some n) w = (None, w))
   \<and> (\<forall>a \<in> set (visited (snd (snd (WriteDirty env t database flags)))). flags a)
   \<and> (fst (WriteDirty env t database flags) = None \<longrightarrow>
        (\<forall>a \<in> set (visited (snd (snd (WriteDirty env t database flags)))).
           \<not> dirty (snd (snd (WriteDirty env t database flags))) a)
        \<and> fst (snd (WriteDirty env t database flags)) =
            applyBatch (batch (snd (writeDirty env t (root t)
                                      \<lparr>dirty = flags, batch = [], visited = []\<rparr>))) database)
   \<and> (fst (writeDirty env t (root t) \<lparr>dirty = flags, batch = [], visited = []\<rparr>) = Some e \<longrightarrow>
        fst (WriteDirty env t database flags) = Some e
        \<and> fst (snd (WriteDirty env t database flags)) = database
        \<and> batch (snd (snd (WriteDirty env t database flags))) = [])"
proof -
  let ?w0 = "\<lparr>dirty = flags, batch = [], visited = []\<rparr>"
  obtain e1 w1 where tr: "writeDirty env t (root t) ?w0 = (e1, w1)"
    by (cases "writeDirty env t (root t) ?w0")
  have "trav_ok ?w0 (writeDirty env t (root t) ?w0)"
    by (rule writeDirty_trav_ok(1))
  with tr have vis: "\<forall>a \<in> set (visited w1). flags a"
    and cl: "e1 = None \<longrightarrow> (\<forall>a \<in> set (visited w1). \<not> dirty w1 a)"
    by (auto simp: trav_ok_def)
  have skip: "\<not> dirty w (addr_of n) \<longrightarrow> writeDirty env t (Some n) w = (None, w)"
    by (cases n) simp_all
  have v: "visited (snd (snd (WriteDirty env t database flags))) = visited w1"
    using tr by (simp add: WriteDirty_def split: option.splits)
  have d: "dirty (snd (snd (WriteDirty env t database flags))) = dirty w1"
    using tr by (simp add: WriteDirty_def split: option.splits)
  have ok: "fst (WriteDirty env t database flags) = None \<longrightarrow>
              e1 = None \<and> fst (snd (WriteDirty env t database flags)) =
                 applyBatch (batch w1) database"
    using tr by (simp add: WriteDirty_def split: option.splits)
  have bad: "e1 = Some e \<longrightarrow>
        fst (WriteDirty env t database flags) = Some e
        \<and> fst (snd (WriteDirty env t database flags)) = database
        \<and> batch (snd (snd (WriteDirty env t database flags))) = []"
    using tr by (simp add: WriteDirty_def)
  from skip vis cl v d ok bad tr show ?thesis by simp
qed

theorem WriteDirty_writes_dirty_nodes_witness:
  "fst (WriteDirty tenv trie4 Map.empty flags4) = None \<and>
   visited (snd (snd (WriteDirty tenv trie4 Map.empty flags4))) = [1, 2] \<and>
   flags4 1 \<and> flags4 2 \<and>
   dirty (snd (snd (WriteDirty tenv trie4 Map.empty flags4))) 1 = False \<and>
   dirty (snd (snd (WriteDirty tenv trie4 Map.empty flags4))) 2 = False \<and>
   dirty (snd (snd (WriteDirty tenv trie4 Map.empty flags4))) 4 \<and>
   fst (snd (WriteDirty tenv trie4 Map.empty flags4)) = [[1, 0] \<mapsto> [1], [2, 0] \<mapsto> [2]]"
proof -
  have ev: "writeDirty tenv trie4 (root trie4) \<lparr>dirty = flags4, batch = [], visited = []\<rparr> =
        (None, \<lparr>dirty = flags4(2 := False, 1 := False),
                batch = [([1, 0], [1]), ([2, 0], [2])], visited = [1, 2]\<rparr>)"
    by (simp add: trie4_def tenv_def putNode_def SetDirty_def flags4_def Let_def)
  have r: "WriteDirty tenv trie4 Map.empty flags4 =
        (None, [[1, 0] \<mapsto> [1], [2, 0] \<mapsto> [2]],
         \<lparr>dirty = flags4(2 := False, 1 := False),
            batch = [([1, 0], [1]), ([2, 0], [2])], visited = [1, 2]\<rparr>)"
    by (simp add: WriteDirty_def ev) (simp add: tenv_def applyBatch_def)
  have n: "fst (WriteDirty tenv trie4 Map.empty flags4) = None"
    by (simp add: r)
  have v: "visited (snd (snd (WriteDirty tenv trie4 Map.empty flags4))) = [1, 2]"
    by (simp add: r)
  from WriteDirty_writes_dirty_nodes [of _ _ tenv trie4 Map.empty flags4] n
  have "(\<forall>a \<in> set (visited (snd (snd (WriteDirty tenv trie4 Map.empty flags4)))). flags4 a) \<and>
   (\<forall>a \<in> set (visited (snd (snd (WriteDirty tenv trie4 Map.empty flags4)))).
      \<not> dirty (snd (snd (WriteDirty tenv trie4 Map.empty flags4))) a)"
    by blast
  then have "flags4 1 \<and> flags4 2 \<and>
   dirty (snd (snd (WriteDirty tenv trie4 Map.empty flags4))) 1 = False \<and>
   dirty (snd (snd (WriteDirty tenv trie4 Map.empty flags4))) 2 = False"
    unfolding v by simp
  moreover have "dirty (snd (snd (WriteDirty tenv trie4 Map.empty flags4))) 4"
    "fst (snd (WriteDirty tenv trie4 Map.empty flags4)) = [[1, 0] \<mapsto> [1], [2, 0] \<mapsto> [2]]"
    by (simp_all add: r flags4_def)
  ultimately show ?thesis using n v by simp
qed


lemma decodeProofNodes_no_root:
  assumes "\<forall>raw \<in> set raws. \<exists>dn enc hash. Decode env raw = Inr dn \<and>
             EncodeAndHash env (node_SetEncodingAndHash (node_SetDirty dn False) raw []) False
               = Inr (enc, hash) \<and> hash \<noteq> rootHash"
  shows "\<exists>m'. decodeProofNodes env rootHash i raws m r = (None, m', r)"
  using assms
proof (induction raws arbitrary: i m)
  case Nil
  then show ?case by simp
next
  case (Cons raw raws)
  from Cons.prems obtain dn enc hash where d: "Decode env raw = Inr dn"
    "EncodeAndHash env (node_SetEncodingAndHash (node_SetDirty dn False) raw []) False
       = Inr (enc, hash)" "hash \<noteq> rootHash"
    by auto
  from Cons.prems have "\<forall>raw \<in> set raws. \<exists>dn enc hash. Decode env raw = Inr dn \<and>
             EncodeAndHash env (node_SetEncodingAndHash (node_SetDirty dn False) raw []) False
               = Inr (enc, hash) \<and> hash \<noteq> rootHash"
    by simp
  from Cons.IH [OF this] d show ?case by (simp add: Let_def)
qed

text \<open>
  C9. On a trie whose root is nil, with a proof that is not empty, in which every entry
  decodes and hashes, and no entry's hash is the root hash: the root is never assigned and
  \<open>LoadFromProof\<close> panics (the type of a nil node is asked for), whatever the bound of the
  recursion; no error is returned.
\<close>

theorem LoadFromProof_root_not_in_proof_panics:
  assumes "proofEncodedNodes \<noteq> []"
    and "\<forall>raw \<in> set proofEncodedNodes. \<exists>dn enc hash. Decode env raw = Inr dn \<and>
             EncodeAndHash env (node_SetEncodingAndHash (node_SetDirty dn False) raw []) False
               = Inr (enc, hash) \<and> hash \<noteq> rootHash"
  shows "LoadFromProof fuel env None proofEncodedNodes rootHash = (Panics, None)"
proof -
  from decodeProofNodes_no_root [OF assms(2), of 0 Map.empty None]
  obtain m' where "decodeProofNodes env rootHash 0 proofEncodedNodes Map.empty None
                     = (None, m', None)"
    by blast
  with assms(1) show ?thesis by (simp add: LoadFromProof_def)
qed

theorem LoadFromProof_root_not_in_proof_panics_witness:
  "LoadFromProof 10 penv None [[5], [6]] [9] = (Panics, None)"
proof -
  have a: "[[5], [6]] \<noteq> ([] :: bytes list)" by simp
  have b: "\<forall>raw \<in> set [[5], [6]]. \<exists>dn enc hash. Decode penv raw = Inr dn \<and>
             EncodeAndHash penv (node_SetEncodingAndHash (node_SetDirty dn False) raw []) False
               = Inr (enc, hash) \<and> hash \<noteq> [9]"
    by (simp add: penv_def)
  from LoadFromProof_root_not_in_proof_panics [OF a b] show ?thesis .
qed


lemma decodeProofNodes_decode_fails:
  assumes "i < length raws"
    and "Decode env (raws ! i) = Inl e"
    and "\<forall>j < i. \<exists>dn p. Decode env (raws ! j) = Inr dn \<and>
           EncodeAndHash env (node_SetEncodingAndHash (node_SetDirty dn False) (raws ! j) [])
             False = Inr p"
  shows "\<exists>m' r'. decodeProofNodes env rootHash k raws m r =
           (Some (Errorf ''%w: at index %d: 0x%x'' [ArgNat (k + i), ArgBytes (raws ! i)]
                    ErrDecodeNode), m', r') \<and>
         (r' = r \<or> (\<exists>j < i. \<exists>dn. Decode env (raws ! j) = Inr dn \<and>
            r' = Some (node_SetEncodingAndHash (node_SetDirty dn False) (raws ! j) [])))"
  using assms
proof (induction raws arbitrary: i k m r)
  case Nil
  then show ?case by simp
next
  case (Cons raw raws)
  show ?case
  proof (cases i)
    case 0
    with Cons.prems show ?thesis by simp
  next
    case (Suc i')
    let ?prep = "\<lambda>dn raw. node_SetEncodingAndHash (node_SetDirty dn False) raw []"
    from Cons.prems(3) Suc obtain dn enc hash where d: "Decode env raw = Inr dn"
      "EncodeAndHash env (?prep dn raw) False = Inr (enc, hash)"
      by fastforce
    let ?r1 = "if hash = rootHash then Some (?prep dn raw) else r"
    have 1: "i' < length raws" using Cons.prems(1) Suc by simp
    have 2: "Decode env (raws ! i') = Inl e" using Cons.prems(2) Suc by simp
    have 3: "\<forall>j < i'. \<exists>dn p. Decode env (raws ! j) = Inr dn \<and>
           EncodeAndHash env (?prep dn (raws ! j)) False = Inr p"
    proof (intro allI impI)
      fix j assume "j < i'"
      then have "Suc j < i" using Suc by simp
      with Cons.prems(3) show "\<exists>dn p. Decode env (raws ! j) = Inr dn \<and>
           EncodeAndHash env (?prep dn (raws ! j)) False = Inr p"
        by fastforce
    qed
    from Cons.IH [OF 1 2 3, of "Suc k" "m(hash \<mapsto> ?prep dn raw)" ?r1]
    obtain m' r' where ih: "decodeProofNodes env rootHash (Suc k) raws
          (m(hash \<mapsto> ?prep dn raw)) ?r1 =
           (Some (Errorf ''%w: at index %d: 0x%x'' [ArgNat (Suc k + i'), ArgBytes (raws ! i')]
                    ErrDecodeNode), m', r')"
      "r' = ?r1 \<or> (\<exists>j < i'. \<exists>dn. Decode env (raws ! j) = Inr dn \<and>
            r' = Some (?prep dn (raws ! j)))"
      by blast
    have res: "decodeProofNodes env rootHash k (raw # raws) m r =
           (Some (Errorf ''%w: at index %d: 0x%x'' [ArgNat (k + i), ArgBytes ((raw # raws) ! i)]
                    ErrDecodeNode), m', r')"
      using d ih(1) Suc by (simp add: Let_def)
    have root: "r' = r \<or> (\<exists>j < i. \<exists>dn. Decode env ((raw # raws) ! j) = Inr dn \<and>
            r' = Some (?prep dn ((raw # raws) ! j)))"
    proof -
      from ih(2) consider "r' = r" | "r' = Some (?prep dn raw)"
        | "\<exists>j < i'. \<exists>dn. Decode env (raws ! j) = Inr dn \<and> r' = Some (?prep dn (raws ! j))"
        by (auto split: if_splits)
      then show ?thesis
      proof cases
        case 1
        then show ?thesis by simp
      next
        case 2
        have "0 < i" using Suc by simp
        with 2 d(1) show ?thesis by fastforce
      next
        case 3
        then obtain j dn' where j: "j < i'" "Decode env (raws ! j) = Inr dn'"
          "r' = Some (?prep dn' (raws ! j))"
          by blast
        then have "Suc j < i" "Decode env ((raw # raws) ! Suc j) = Inr dn'"
          "r' = Some (?prep dn' ((raw # raws) ! Suc j))"
          using Suc by simp_all
        then show ?thesis by blast
      qed
    qed
    from res root show ?thesis by blast
  qed
qed


text \<open>
  C8. \<open>LoadFromProof\<close> on an empty slice returns \<open>ErrEmptyProof\<close> and leaves the trie as
  it was. When an entry of the slice does not decode (re-encoding and hashing of the
  decoded entries succeeding), it returns an error that wraps \<open>ErrDecodeNode\<close> and carries
  the index and the bytes of the first entry that does not decode; the root of the trie is
  then the old root or one of the earlier entries exactly as decoded, with no node
  attached to it.
\<close>

theorem LoadFromProof_empty_or_malformed:
  "LoadFromProof fuel env troot [] rootHash = (Returns (Some ErrEmptyProof), troot)
   \<and> ((\<exists>raw \<in> set raws. \<exists>e. Decode env raw = Inl e) \<and>
      (\<forall>raw \<in> set raws. \<forall>dn. Decode env raw = Inr dn \<longrightarrow>
         (\<exists>p. EncodeAndHash env (node_SetEncodingAndHash (node_SetDirty dn False) raw []) False
                = Inr p))
      \<longrightarrow> (\<exists>i < length raws.
             (\<exists>e. Decode env (raws ! i) = Inl e) \<and>
             (\<forall>j < i. \<exists>dn. Decode env (raws ! j) = Inr dn) \<and>
             fst (LoadFromProof fuel env troot raws rootHash) =
               Returns (Some (Errorf ''%w: at index %d: 0x%x'' [ArgNat i, ArgBytes (raws ! i)]
                                ErrDecodeNode)) \<and>
             (snd (LoadFromProof fuel env troot raws rootHash) = troot \<or>
              (\<exists>j < i. \<exists>dn. Decode env (raws ! j) = Inr dn \<and>
                 snd (LoadFromProof fuel env troot raws rootHash) =
                   Some (node_SetEncodingAndHash (node_SetDirty dn False) (raws ! j) [])))))"
proof (intro conjI impI)
  show "LoadFromProof fuel env troot [] rootHash = (Returns (Some ErrEmptyProof), troot)"
    by (simp add: LoadFromProof_def)
next
  let ?prep = "\<lambda>dn raw. node_SetEncodingAndHash (node_SetDirty dn False) raw []"
  let ?bad = "\<lambda>i. i < length raws \<and> (\<exists>e. Decode env (raws ! i) = Inl e)"
  assume a: "(\<exists>raw \<in> set raws. \<exists>e. Decode env raw = Inl e) \<and>
      (\<forall>raw \<in> set raws. \<forall>dn. Decode env raw = Inr dn \<longrightarrow>
         (\<exists>p. EncodeAndHash env (?prep dn raw) False = Inr p))"
  then have "\<exists>i. ?bad i"
    by (metis in_set_conv_nth)
  then obtain i where i: "?bad i" "\<forall>j < i. \<not> ?bad j"
    using exists_least_iff [of ?bad] by blast
  then obtain e where e: "Decode env (raws ! i) = Inl e" by blast
  have il: "i < length raws" using i(1) by simp
  have ne: "raws \<noteq> []" using il by auto
  have before: "\<forall>j < i. \<exists>dn p. Decode env (raws ! j) = Inr dn \<and>
           EncodeAndHash env (?prep dn (raws ! j)) False = Inr p"
  proof (intro allI impI)
    fix j assume j: "j < i"
    then have jl: "j < length raws" using il by simp
    with i(2) j have "\<not> (\<exists>e. Decode env (raws ! j) = Inl e)" by blast
    then obtain dn where dn: "Decode env (raws ! j) = Inr dn"
      by (cases "Decode env (raws ! j)") auto
    moreover from a jl dn obtain p where "EncodeAndHash env (?prep dn (raws ! j)) False = Inr p"
      by (meson nth_mem)
    ultimately show "\<exists>dn p. Decode env (raws ! j) = Inr dn \<and>
           EncodeAndHash env (?prep dn (raws ! j)) False = Inr p"
      by blast
  qed
  from decodeProofNodes_decode_fails [OF il e before, of rootHash 0 Map.empty troot]
  obtain m' r' where d: "decodeProofNodes env rootHash 0 raws Map.empty troot =
           (Some (Errorf ''%w: at index %d: 0x%x'' [ArgNat i, ArgBytes (raws ! i)]
                    ErrDecodeNode), m', r')"
    "r' = troot \<or> (\<exists>j < i. \<exists>dn. Decode env (raws ! j) = Inr dn \<and>
            r' = Some (?prep dn (raws ! j)))"
    by auto
  have r: "LoadFromProof fuel env troot raws rootHash =
             (Returns (Some (Errorf ''%w: at index %d: 0x%x'' [ArgNat i, ArgBytes (raws ! i)]
                    ErrDecodeNode)), r')"
    using ne d(1) by (simp add: LoadFromProof_def)
  from before have b': "\<forall>j < i. \<exists>dn. Decode env (raws ! j) = Inr dn" by blast
  show "\<exists>i < length raws.
             (\<exists>e. Decode env (raws ! i) = Inl e) \<and>
             (\<forall>j < i. \<exists>dn. Decode env (raws ! j) = Inr dn) \<and>
             fst (LoadFromProof fuel env troot raws rootHash) =
               Returns (Some (Errorf ''%w: at index %d: 0x%x'' [ArgNat i, ArgBytes (raws ! i)]
                                ErrDecodeNode)) \<and>
             (snd (LoadFromProof fuel env troot raws rootHash) = troot \<or>
              (\<exists>j < i. \<exists>dn. Decode env (raws ! j) = Inr dn \<and>
                 snd (LoadFromProof fuel env troot raws rootHash) =
                   Some (?prep dn (raws ! j))))"
    using il e b' d(2) unfolding r fst_conv snd_conv by blast
qed

theorem LoadFromProof_empty_or_malformed_witness:
  "LoadFromProof 10 penv None [] [5] = (Returns (Some ErrEmptyProof), None) \<and>
   fst (LoadFromProof 10 penv None [[5], [6, 7], [8]] [5]) =
     Returns (Some (Errorf ''%w: at index %d: 0x%x'' [ArgNat 1, ArgBytes [6, 7]] ErrDecodeNode))"
proof -
  let ?raws = "[[5], [6, 7], [8]] :: bytes list"
  have a: "(\<exists>raw \<in> set ?raws. \<exists>e. Decode penv raw = Inl e) \<and>
      (\<forall>raw \<in> set ?raws. \<forall>dn. Decode penv raw = Inr dn \<longrightarrow>
         (\<exists>p. EncodeAndHash penv (node_SetEncodingAndHash (node_SetDirty dn False) raw []) False
                = Inr p))"
    by (simp add: penv_def)
  note t = LoadFromProof_empty_or_malformed [of 10 penv None "[5]" ?raws]
  from t a obtain i where i: "i < length ?raws" "\<exists>e. Decode penv (?raws ! i) = Inl e"
    "fst (LoadFromProof 10 penv None ?raws [5]) =
       Returns (Some (Errorf ''%w: at index %d: 0x%x'' [ArgNat i, ArgBytes (?raws ! i)]
                        ErrDecodeNode))"
    by blast
  from i(1) have "i = 0 \<or> i = 1 \<or> i = 2" by auto
  with i(2) have "i = 1" by (auto simp: penv_def)
  with i(3) have "fst (LoadFromProof 10 penv None ?raws [5]) =
     Returns (Some (Errorf ''%w: at index %d: 0x%x'' [ArgNat 1, ArgBytes [6, 7]] ErrDecodeNode))"
    by simp
  with t show ?thesis by blast
qed

end
